theory Spec2Isabelle
  imports Complex_Main "HOL-Library.Multiset"
begin

section \<open>The Python 2 runtime the script relies on\<close>

text \<open>
  \<^verbatim>\<open>profile-analyze.py\<close> is a Python 2 script (print statements, \<^verbatim>\<open>has_key\<close>,
  \<^verbatim>\<open>cmp\<close>). Exceptions are values of \<open>error\<close>; a computation that can raise returns
  \<open>error + 'a\<close>, with \<open>Inl\<close> for the exception.
\<close>

datatype error =
    NotDebugFile            \<comment> \<open>\<^verbatim>\<open>ValueError('not an Inform debug file')\<close>\<close>
  | UnknownRecordType int   \<comment> \<open>\<^verbatim>\<open>ValueError('unknown debug record type: %d')\<close>\<close>
  | ValueError              \<comment> \<open>raised by \<^verbatim>\<open>int()\<close>, \<^verbatim>\<open>float()\<close> and \<^verbatim>\<open>min([])\<close>\<close>
  | StructError             \<comment> \<open>\<^verbatim>\<open>struct.error\<close>: \<^verbatim>\<open>unpack\<close> on a string of the wrong length\<close>
  | KeyError string
  | TypeError               \<comment> \<open>an operation on \<^verbatim>\<open>None\<close>\<close>

text \<open>
  The conversions \<^verbatim>\<open>int(s)\<close>, \<^verbatim>\<open>int(s, 16)\<close> and \<^verbatim>\<open>float(s)\<close> are builtins of the
  interpreter; the model takes them as a parameter \<open>rt\<close>. \<open>None\<close> is \<^verbatim>\<open>ValueError\<close>.
  Floats are the finite ones, read as the reals they denote; \<^verbatim>\<open>nan\<close> and the infinities
  are outside the model.
\<close>

record builtins =
  py_int :: "nat \<Rightarrow> string \<Rightarrow> int option"
  py_float :: "string \<Rightarrow> real option"

definition int_of :: "builtins \<Rightarrow> nat \<Rightarrow> string \<Rightarrow> error + int" where
  "int_of rt base s = (case py_int rt base s of None \<Rightarrow> Inl ValueError | Some n \<Rightarrow> Inr n)"

definition float_of :: "builtins \<Rightarrow> string \<Rightarrow> error + real" where
  "float_of rt s = (case py_float rt s of None \<Rightarrow> Inl ValueError | Some x \<Rightarrow> Inr x)"

text \<open>
  For closed examples: the builtins on plain digit strings (\<^verbatim>\<open>'42'\<close>, \<^verbatim>\<open>'3c'\<close>,
  \<^verbatim>\<open>'5.0'\<close>), where their value is beyond doubt. Signs, blanks, prefixes and exponents
  are not covered by this instance.
\<close>

definition digit_val :: "char \<Rightarrow> nat option" where
  "digit_val c =
     (let n = (of_char c :: nat) in
      if 48 \<le> n \<and> n \<le> 57 then Some (n - 48)
      else if 97 \<le> n \<and> n \<le> 102 then Some (n - 87)
      else if 65 \<le> n \<and> n \<le> 70 then Some (n - 55)
      else None)"

fun digits_acc :: "nat \<Rightarrow> nat \<Rightarrow> string \<Rightarrow> nat option" where
  "digits_acc base acc [] = Some acc"
| "digits_acc base acc (c # cs) =
     (case digit_val c of
        None \<Rightarrow> None
      | Some d \<Rightarrow> if d < base then digits_acc base (acc * base + d) cs else None)"

definition digits_int :: "nat \<Rightarrow> string \<Rightarrow> int option" where
  "digits_int base s = (if s = [] then None else map_option int (digits_acc base 0 s))"

definition digits_float :: "string \<Rightarrow> real option" where
  "digits_float s =
     (let whole = takeWhile (\<lambda>c. c \<noteq> CHR ''.'') s;
          frac = drop 1 (dropWhile (\<lambda>c. c \<noteq> CHR ''.'') s) in
      if whole = [] then None
      else case (digits_acc 10 0 whole, digits_acc 10 0 frac) of
             (Some w, Some f) \<Rightarrow> Some (real w + real f / 10 ^ length frac)
           | _ \<Rightarrow> None)"

definition digit_builtins :: builtins where
  "digit_builtins = \<lparr>py_int = digits_int, py_float = digits_float\<rparr>"

subsection \<open>Dictionaries with integer keys\<close>

text \<open>
  A Python 2 \<^verbatim>\<open>dict\<close> iterates in the order of its hash table's slots, not in the
  order of insertion. The model keeps the entries in insertion order, so that lookup and
  assignment are list operations, and computes the iteration order by replaying the
  insertions of the keys into the interpreter's table (CPython 2.7 \<^verbatim>\<open>dictobject.c\<close>,
  64-bit build, keys that are machine integers, no deletions): 8 slots at first, the slot
  \<^verbatim>\<open>hash & mask\<close>, on a collision \<^verbatim>\<open>i = (i << 2) + i + perturb + 1\<close> with
  \<^verbatim>\<open>perturb >>= 5\<close>, and a resize to the first power of two above four times the
  number of entries once two thirds of the slots are filled.
\<close>

type_synonym 'v pydict = "(int \<times> 'v) list"

definition dict_get :: "'v pydict \<Rightarrow> int \<Rightarrow> 'v option" where
  "dict_get d k = map_of d k"

definition dict_set :: "'v pydict \<Rightarrow> int \<Rightarrow> 'v \<Rightarrow> 'v pydict" where
  "dict_set d k v =
     (if k \<in> fst ` set d then map (\<lambda>(k', v'). if k' = k then (k', v) else (k', v')) d
      else d @ [(k, v)])"

definition py_hash :: "int \<Rightarrow> int" where
  "py_hash k = (if k = - 1 then - 2 else k) mod 2 ^ 64"

definition slot :: "int option list \<Rightarrow> int \<Rightarrow> nat" where
  "slot tab i = nat (i mod int (length tab))"

fun probe :: "nat \<Rightarrow> int option list \<Rightarrow> int \<Rightarrow> int \<Rightarrow> nat" where
  "probe 0 tab i perturb = slot tab i"
| "probe (Suc n) tab i perturb =
     (case tab ! slot tab i of
        None \<Rightarrow> slot tab i
      | Some _ \<Rightarrow> probe n tab ((5 * i + perturb + 1) mod 2 ^ 64) (perturb div 32))"

definition insertdict_clean :: "int option list \<Rightarrow> int \<Rightarrow> int option list" where
  "insertdict_clean tab k =
     tab[probe (length tab + 64) tab (py_hash k mod int (length tab)) (py_hash k) := Some k]"

fun newsize :: "nat \<Rightarrow> nat \<Rightarrow> nat \<Rightarrow> nat" where
  "newsize 0 sz minused = sz"
| "newsize (Suc n) sz minused =
     (if sz \<le> minused then newsize n (2 * sz) minused else sz)"

definition dictresize :: "int option list \<Rightarrow> nat \<Rightarrow> int option list" where
  "dictresize tab minused =
     foldl insertdict_clean (replicate (newsize (Suc minused) 8 minused) None)
       (concat (map (\<lambda>s. case s of None \<Rightarrow> [] | Some k \<Rightarrow> [k]) tab))"

definition insertdict :: "int option list \<Rightarrow> int \<Rightarrow> int option list" where
  "insertdict tab k =
     (let tab' = insertdict_clean tab k;
          used = length (filter (\<lambda>s. s \<noteq> None) tab') in
      if used * 3 \<ge> length tab' * 2
      then dictresize tab' ((if used > 50000 then 2 else 4) * used)
      else tab')"

definition dict_table :: "int list \<Rightarrow> int option list" where
  "dict_table ks = foldl insertdict (replicate 8 None) ks"

definition slot_of :: "int option list \<Rightarrow> int \<Rightarrow> nat" where
  "slot_of tab k = length (takeWhile (\<lambda>s. s \<noteq> Some k) tab)"

text \<open>\<^verbatim>\<open>d.items()\<close>, \<^verbatim>\<open>d.values()\<close>: the entries by increasing slot.\<close>

definition dict_items :: "'v pydict \<Rightarrow> (int \<times> 'v) list" where
  "dict_items d = sort_key (\<lambda>(k, v). slot_of (dict_table (map fst d)) k) d"

definition dict_values :: "'v pydict \<Rightarrow> 'v list" where
  "dict_values d = map snd (dict_items d)"

section \<open>The profiling trace\<close>

text \<open>
  \<^verbatim>\<open>special_functions = { 1: 'glk', 2: 'streamout' }\<close>
\<close>

definition special_functions :: "int \<Rightarrow> string option" where
  "special_functions a = (if a = 1 then Some ''glk'' else if a = 2 then Some ''streamout'' else None)"

record Function =
  addr :: int
  hexaddr :: string
  name :: string
  special :: bool
  linenum :: int
  call_count :: int
  accel_count :: int
  total_ops :: int
  total_time :: real
  self_ops :: int
  self_time :: real

text \<open>\<^verbatim>\<open>attrs[key]\<close> on the attributes of an XML element.\<close>

definition attr :: "(string \<rightharpoonup> string) \<Rightarrow> string \<Rightarrow> error + string" where
  "attr attrs key = (case attrs key of None \<Rightarrow> Inl (KeyError key) | Some s \<Rightarrow> Inr s)"

definition attr_int :: "builtins \<Rightarrow> (string \<rightharpoonup> string) \<Rightarrow> string \<Rightarrow> error + int" where
  "attr_int rt attrs key = (case attr attrs key of Inl e \<Rightarrow> Inl e | Inr s \<Rightarrow> int_of rt 10 s)"

definition attr_float :: "builtins \<Rightarrow> (string \<rightharpoonup> string) \<Rightarrow> string \<Rightarrow> error + real" where
  "attr_float rt attrs key = (case attr attrs key of Inl e \<Rightarrow> Inl e | Inr s \<Rightarrow> float_of rt s)"

text \<open>\<^verbatim>\<open>Function.__init__(self, addr, hexaddr, attrs)\<close>\<close>

definition Function_init ::
  "builtins \<Rightarrow> int \<Rightarrow> string \<Rightarrow> (string \<rightharpoonup> string) \<Rightarrow> error + Function" where
  "Function_init rt a hexa attrs =
     (let val = special_functions a;
          nm = (case val of None \<Rightarrow> ''<???>'' | Some v \<Rightarrow> ''<@'' @ v @ ''>'');
          sp = (case val of None \<Rightarrow> False | Some v \<Rightarrow> True) in
      case attr_int rt attrs ''call_count'' of Inl e \<Rightarrow> Inl e | Inr cc \<Rightarrow>
      case (if attrs ''accel_count'' = None then Inr 0 else attr_int rt attrs ''accel_count'') of
        Inl e \<Rightarrow> Inl e | Inr ac \<Rightarrow>
      case attr_int rt attrs ''total_ops'' of Inl e \<Rightarrow> Inl e | Inr tops \<Rightarrow>
      case attr_float rt attrs ''total_time'' of Inl e \<Rightarrow> Inl e | Inr ttime \<Rightarrow>
      case attr_int rt attrs ''self_ops'' of Inl e \<Rightarrow> Inl e | Inr sops \<Rightarrow>
      case attr_float rt attrs ''self_time'' of Inl e \<Rightarrow> Inl e | Inr stime \<Rightarrow>
        Inr \<lparr>addr = a, hexaddr = hexa, name = nm, special = sp, linenum = 0,
             call_count = cc, accel_count = ac, total_ops = tops, total_time = ttime,
             self_ops = sops, self_time = stime\<rparr>)"

text \<open>
  \<^verbatim>\<open>ProfileRawHandler.startElement(self, name, attrs)\<close>. The global \<^verbatim>\<open>functions\<close> is
  \<^verbatim>\<open>None\<close> until a \<^verbatim>\<open>profile\<close> element opens; \<^verbatim>\<open>int(None, 16)\<close> and an item
  assignment on \<^verbatim>\<open>None\<close> raise \<^verbatim>\<open>TypeError\<close>.
\<close>

definition startElement ::
  "builtins \<Rightarrow> Function pydict option \<Rightarrow> string \<Rightarrow> (string \<rightharpoonup> string)
     \<Rightarrow> error + Function pydict option" where
  "startElement rt functions nm attrs =
     (let functions = (if nm = ''profile'' then Some [] else functions) in
      if nm = ''function'' then
        (case attrs ''addr'' of
           None \<Rightarrow> Inl TypeError
         | Some hexa \<Rightarrow>
            (case int_of rt 16 hexa of
               Inl e \<Rightarrow> Inl e
             | Inr a \<Rightarrow>
                (case Function_init rt a hexa attrs of
                   Inl e \<Rightarrow> Inl e
                 | Inr func \<Rightarrow>
                    (case functions of
                       None \<Rightarrow> Inl TypeError
                     | Some d \<Rightarrow> Inr (Some (dict_set d a func))))))
      else Inr functions)"

text \<open>
  \<^verbatim>\<open>xml.sax.parse(profile_raw, ProfileRawHandler())\<close>: the parser calls
  \<^verbatim>\<open>startElement\<close> once per element, in document order.
\<close>

fun sax_parse ::
  "builtins \<Rightarrow> Function pydict option \<Rightarrow> (string \<times> (string \<rightharpoonup> string)) list
     \<Rightarrow> error + Function pydict option" where
  "sax_parse rt functions [] = Inr functions"
| "sax_parse rt functions ((nm, attrs) # els) =
     (case startElement rt functions nm attrs of
        Inl e \<Rightarrow> Inl e
      | Inr functions' \<Rightarrow> sax_parse rt functions' els)"

section \<open>Correlation\<close>

text \<open>
  \<^verbatim>\<open>source_start = min([ func.addr for func in functions.values() if not func.special ])\<close>;
  \<^verbatim>\<open>min\<close> of an empty list raises \<^verbatim>\<open>ValueError\<close>.
\<close>

definition source_start :: "Function pydict \<Rightarrow> error + int" where
  "source_start functions =
     (case [addr func. func \<leftarrow> dict_values functions, \<not> special func] of
        [] \<Rightarrow> Inl ValueError
      | a # as \<Rightarrow> Inr (fold min as a))"




section \<open>The report\<close>

text \<open>\<^verbatim>\<open>cmp(x, y)\<close> on floats.\<close>

definition cmp :: "real \<Rightarrow> real \<Rightarrow> int" where
  "cmp x y = (if x < y then - 1 else if x = y then 0 else 1)"

text \<open>
  \<^verbatim>\<open>ls.sort(cmpfunc)\<close> is a stable sort: an element goes behind the elements that do not
  compare greater than it. The model inserts the elements one by one, from the left.
\<close>

fun insert_cmp :: "('a \<Rightarrow> 'a \<Rightarrow> int) \<Rightarrow> 'a \<Rightarrow> 'a list \<Rightarrow> 'a list" where
  "insert_cmp c x [] = [x]"
| "insert_cmp c x (y # ys) = (if c x y < 0 then x # y # ys else y # insert_cmp c x ys)"

definition list_sort :: "('a \<Rightarrow> 'a \<Rightarrow> int) \<Rightarrow> 'a list \<Rightarrow> 'a list" where
  "list_sort c xs = foldl (\<lambda>sorted x. insert_cmp c x sorted) [] xs"

text \<open>The comparison \<^verbatim>\<open>lambda x1, x2: cmp(x2.self_time, x1.self_time)\<close>.\<close>

definition by_time :: "Function \<Rightarrow> Function \<Rightarrow> int" where
  "by_time x1 x2 = cmp (self_time x2) (self_time x1)"

text \<open>
  \<^verbatim>\<open>ls = functions.values(); ls.sort(...)\<close>; the records dumped are \<^verbatim>\<open>ls[:10]\<close>, in
  this order.
\<close>

definition report :: "Function pydict \<Rightarrow> Function list" where
  "report functions = take 10 (list_sort by_time (dict_values functions))"

section \<open>The assembly listing\<close>

text \<open>\<^verbatim>\<open>str.strip()\<close>, \<^verbatim>\<open>str.split()\<close> and \<^verbatim>\<open>str.startswith\<close> on byte strings.\<close>

definition isspace :: "char \<Rightarrow> bool" where
  "isspace c = (c \<in> {CHR '' '', CHR 0x09, CHR 0x0A, CHR 0x0B, CHR 0x0C, CHR 0x0D})"

definition strip :: "string \<Rightarrow> string" where
  "strip s = rev (dropWhile isspace (rev (dropWhile isspace s)))"

fun split_from :: "string \<Rightarrow> string \<Rightarrow> string list" where
  "split_from tok [] = (if tok = [] then [] else [tok])"
| "split_from tok (c # cs) =
     (if isspace c then (if tok = [] then split_from [] cs else tok # split_from [] cs)
      else split_from (tok @ [c]) cs)"

definition split :: "string \<Rightarrow> string list" where
  "split s = split_from [] s"

definition startswith :: "string \<Rightarrow> string \<Rightarrow> bool" where
  "startswith s pre = (take (length pre) s = pre)"

text \<open>
  One line of \<^verbatim>\<open>parse_asm\<close> after the commit: the \<^verbatim>\<open>try\<close> block. \<^verbatim>\<open>lasttup\<close> was
  set to \<^verbatim>\<open>None\<close> before it, and a \<^verbatim>\<open>ValueError\<close> of either \<^verbatim>\<open>int\<close> is passed over.
\<close>

definition definition_line :: "builtins \<Rightarrow> string list \<Rightarrow> (int \<times> string \<times> int) option" where
  "definition_line rt ls =
     (if length ls \<ge> 4 \<and> ls ! 2 = ''['' \<and> startswith (ls ! 1) ''+'' then
        (case int_of rt 10 (ls ! 0) of
           Inl e \<Rightarrow> None
         | Inr lnum \<Rightarrow>
            (case int_of rt 16 (drop 1 (ls ! 1)) of
               Inl e \<Rightarrow> None
             | Inr a \<Rightarrow> Some (lnum, ls ! 3, a)))
      else None)"

text \<open>
  The loop of \<^verbatim>\<open>parse_asm(fl)\<close> over what \<^verbatim>\<open>fl.readline()\<close> returns: the lines of the
  file, each with its line end, and \<^verbatim>\<open>''\<close> at the end of the file.
\<close>

fun parse_asm_loop ::
  "builtins \<Rightarrow> (int \<times> string) pydict \<Rightarrow> (int \<times> string \<times> int) option \<Rightarrow> string list
     \<Rightarrow> (int \<times> string) pydict" where
  "parse_asm_loop rt sourcemap lasttup [] = sourcemap"
| "parse_asm_loop rt sourcemap lasttup (line # lns) =
     (if line = [] then sourcemap
      else let ls = split (strip line);
               sourcemap = (case lasttup of
                              None \<Rightarrow> sourcemap
                            | Some (lnum, funcname, a) \<Rightarrow>
                                if ls = [] then dict_set sourcemap a (lnum, funcname)
                                else sourcemap)
           in parse_asm_loop rt sourcemap (definition_line rt ls) lns)"

definition parse_asm :: "builtins \<Rightarrow> string list \<Rightarrow> (int \<times> string) pydict" where
  "parse_asm rt lns = parse_asm_loop rt [] None lns"

section \<open>The debug file\<close>

text \<open>
  The file is a string of bytes; the state of the file object \<^verbatim>\<open>fl\<close> is the part not
  yet read, so \<^verbatim>\<open>fl.read(n)\<close> returns \<open>take n fl\<close> (shorter than \<open>n\<close> at the end of the
  file) and leaves \<open>drop n fl\<close>. A reader returns \<open>None\<close> when it never returns,
  \<open>Some (Inl e)\<close> when it raises and \<open>Some (Inr (v, fl'))\<close> otherwise.
\<close>

type_synonym linepos = "int \<times> int \<times> int"

record InformFunc =
  funcnum :: int
  name :: string
  addr :: int
  linenum :: "linepos option"
  endaddr :: "int option"
  endlinenum :: "linepos option"
  locals :: "string list option"
  seqpts :: "(linepos \<times> int) list option"

text \<open>\<^verbatim>\<open>InformFunc.__init__(self, funcnum)\<close>\<close>

definition InformFunc_init :: "int \<Rightarrow> InformFunc" where
  "InformFunc_init n =
     \<lparr>funcnum = n, name = ''<???>'', addr = 0, linenum = None, endaddr = None,
      endlinenum = None, locals = None, seqpts = None\<rparr>"

text \<open>The attributes of a \<^verbatim>\<open>DebugFile\<close>; \<open>map_tab\<close> is \<^verbatim>\<open>self.map\<close>.\<close>

record DebugFile =
  files :: "int \<rightharpoonup> string \<times> string"
  "functions" :: "InformFunc pydict"
  function_names :: "string \<rightharpoonup> InformFunc"
  classes :: "(string \<times> linepos \<times> linepos) list"
  objects :: "int \<rightharpoonup> string \<times> linepos \<times> linepos"
  arrays :: "int \<rightharpoonup> string"
  globals :: "int \<rightharpoonup> string"
  properties :: "int \<rightharpoonup> string"
  attributes :: "int \<rightharpoonup> string"
  actions :: "int \<rightharpoonup> string"
  fake_actions :: "int \<rightharpoonup> string"
  map_tab :: "string \<rightharpoonup> int"
  header :: "string option"
  debugversion :: int
  informversion :: int

definition DebugFile_new :: "int \<Rightarrow> int \<Rightarrow> DebugFile" where
  "DebugFile_new dv iv =
     \<lparr>files = Map.empty, functions = [], function_names = Map.empty, classes = [],
      objects = Map.empty, arrays = Map.empty, globals = Map.empty, properties = Map.empty,
      attributes = Map.empty, actions = Map.empty, fake_actions = Map.empty,
      map_tab = Map.empty, header = None, debugversion = dv, informversion = iv\<rparr>"

definition bnd :: "(error + 'a) option \<Rightarrow> ('a \<Rightarrow> (error + 'b) option) \<Rightarrow> (error + 'b) option" where
  "bnd m f = (case m of None \<Rightarrow> None | Some (Inl e) \<Rightarrow> Some (Inl e) | Some (Inr x) \<Rightarrow> f x)"

text \<open>
  \<^verbatim>\<open>unpack('>B', dat)[0]\<close>, \<^verbatim>\<open>unpack('>H', dat)[0]\<close>, \<^verbatim>\<open>unpack('>I', dat)[0]\<close>: a
  big-endian unsigned integer of exactly 1, 2 or 4 bytes.
\<close>

definition unpack :: "nat \<Rightarrow> string \<Rightarrow> error + int" where
  "unpack n dat =
     (if length dat = n then Inr (foldl (\<lambda>v c. v * 256 + of_char c) 0 dat) else Inl StructError)"

text \<open>\<^verbatim>\<open>dat = fl.read(n); unpack(..., dat)[0]\<close>\<close>

definition read_uint :: "nat \<Rightarrow> string \<Rightarrow> (error + int \<times> string) option" where
  "read_uint n fl =
     (case unpack n (take n fl) of Inl e \<Rightarrow> Some (Inl e) | Inr v \<Rightarrow> Some (Inr (v, drop n fl)))"

text \<open>\<^verbatim>\<open>dat = fl.read(3); addr = unpack('>I', '\0'+dat)[0]\<close>\<close>

definition read_addr :: "string \<Rightarrow> (error + int \<times> string) option" where
  "read_addr fl =
     (case unpack 4 (CHR 0x00 # take 3 fl) of
        Inl e \<Rightarrow> Some (Inl e)
      | Inr v \<Rightarrow> Some (Inr (v, drop 3 fl)))"

text \<open>\<^verbatim>\<open>read_linenum\<close>: \<^verbatim>\<open>unpack('>BHB', fl.read(4))\<close>\<close>

definition read_linenum :: "string \<Rightarrow> (error + linepos \<times> string) option" where
  "read_linenum fl =
     (case take 4 fl of
        [a, b, c, d] \<Rightarrow>
          Some (Inr ((of_char a, of_char b * 256 + of_char c, of_char d), drop 4 fl))
      | _ \<Rightarrow> Some (Inl StructError))"

text \<open>
  \<^verbatim>\<open>read_string\<close>: the loop \<^verbatim>\<open>while True: dat = fl.read(1); if (dat == '\0'): return val;
  val += dat\<close>. At the end of the file \<^verbatim>\<open>fl.read(1)\<close> is \<^verbatim>\<open>''\<close>.
\<close>

partial_function (option) read_string_loop ::
  "string \<Rightarrow> string \<Rightarrow> (error + string \<times> string) option" where
  "read_string_loop val fl =
     (if take 1 fl = [CHR 0x00] then Some (Inr (val, drop 1 fl))
      else read_string_loop (val @ take 1 fl) (drop 1 fl))"

definition read_string :: "string \<Rightarrow> (error + string \<times> string) option" where
  "read_string fl = read_string_loop [] fl"

definition read_file_rec :: "DebugFile \<Rightarrow> string \<Rightarrow> (error + DebugFile \<times> string) option" where
  "read_file_rec self fl =
     bnd (read_uint 1 fl) (\<lambda>(filenum, fl).
     bnd (read_string fl) (\<lambda>(includename, fl).
     bnd (read_string fl) (\<lambda>(realname, fl).
       Some (Inr (self\<lparr>files := (files self)(filenum \<mapsto> (includename, realname))\<rparr>, fl)))))"

definition read_class_rec :: "DebugFile \<Rightarrow> string \<Rightarrow> (error + DebugFile \<times> string) option" where
  "read_class_rec self fl =
     bnd (read_string fl) (\<lambda>(nm, fl).
     bnd (read_linenum fl) (\<lambda>(start, fl).
     bnd (read_linenum fl) (\<lambda>(end, fl).
       Some (Inr (self\<lparr>classes := classes self @ [(nm, start, end)]\<rparr>, fl)))))"

definition read_object_rec :: "DebugFile \<Rightarrow> string \<Rightarrow> (error + DebugFile \<times> string) option" where
  "read_object_rec self fl =
     bnd (read_uint 2 fl) (\<lambda>(num, fl).
     bnd (read_string fl) (\<lambda>(nm, fl).
     bnd (read_linenum fl) (\<lambda>(start, fl).
     bnd (read_linenum fl) (\<lambda>(end, fl).
       Some (Inr (self\<lparr>objects := (objects self)(num \<mapsto> (nm, start, end))\<rparr>, fl))))))"

definition read_global_rec :: "DebugFile \<Rightarrow> string \<Rightarrow> (error + DebugFile \<times> string) option" where
  "read_global_rec self fl =
     bnd (read_uint 1 fl) (\<lambda>(num, fl).
     bnd (read_string fl) (\<lambda>(nm, fl).
       Some (Inr (self\<lparr>arrays := (arrays self)(num \<mapsto> nm)\<rparr>, fl))))"

definition read_array_rec :: "DebugFile \<Rightarrow> string \<Rightarrow> (error + DebugFile \<times> string) option" where
  "read_array_rec self fl =
     bnd (read_uint 2 fl) (\<lambda>(num, fl).
     bnd (read_string fl) (\<lambda>(nm, fl).
       Some (Inr (self\<lparr>arrays := (arrays self)(num \<mapsto> nm)\<rparr>, fl))))"

definition read_attr_rec :: "DebugFile \<Rightarrow> string \<Rightarrow> (error + DebugFile \<times> string) option" where
  "read_attr_rec self fl =
     bnd (read_uint 2 fl) (\<lambda>(num, fl).
     bnd (read_string fl) (\<lambda>(nm, fl).
       Some (Inr (self\<lparr>attributes := (attributes self)(num \<mapsto> nm)\<rparr>, fl))))"

definition read_prop_rec :: "DebugFile \<Rightarrow> string \<Rightarrow> (error + DebugFile \<times> string) option" where
  "read_prop_rec self fl =
     bnd (read_uint 2 fl) (\<lambda>(num, fl).
     bnd (read_string fl) (\<lambda>(nm, fl).
       Some (Inr (self\<lparr>properties := (properties self)(num \<mapsto> nm)\<rparr>, fl))))"

definition read_action_rec :: "DebugFile \<Rightarrow> string \<Rightarrow> (error + DebugFile \<times> string) option" where
  "read_action_rec self fl =
     bnd (read_uint 2 fl) (\<lambda>(num, fl).
     bnd (read_string fl) (\<lambda>(nm, fl).
       Some (Inr (self\<lparr>actions := (actions self)(num \<mapsto> nm)\<rparr>, fl))))"

definition read_fake_action_rec ::
  "DebugFile \<Rightarrow> string \<Rightarrow> (error + DebugFile \<times> string) option" where
  "read_fake_action_rec self fl =
     bnd (read_uint 2 fl) (\<lambda>(num, fl).
     bnd (read_string fl) (\<lambda>(nm, fl).
       Some (Inr (self\<lparr>fake_actions := (fake_actions self)(num \<mapsto> nm)\<rparr>, fl))))"

text \<open>
  \<^verbatim>\<open>get_function(self, funcnum)\<close> returns the object at \<^verbatim>\<open>self.functions[funcnum]\<close>,
  after creating it when the key is absent (an \<^verbatim>\<open>InformFunc\<close> is never false). The
  callers then assign to its attributes; \<open>put_function\<close> writes the changed object back
  to the dictionary that holds it.
\<close>

definition get_function :: "DebugFile \<Rightarrow> int \<Rightarrow> InformFunc \<times> DebugFile" where
  "get_function self n =
     (case dict_get (functions self) n of
        None \<Rightarrow>
          (let func = InformFunc_init n
           in (func, self\<lparr>functions := dict_set (functions self) n func\<rparr>))
      | Some func \<Rightarrow> (func, self))"

definition put_function :: "DebugFile \<Rightarrow> int \<Rightarrow> InformFunc \<Rightarrow> DebugFile" where
  "put_function self n func = self\<lparr>functions := dict_set (functions self) n func\<rparr>"

text \<open>The loop of \<^verbatim>\<open>read_routine_rec\<close> that reads the names of the locals.\<close>

partial_function (option) read_locals ::
  "string list \<Rightarrow> string \<Rightarrow> (error + string list \<times> string) option" where
  "read_locals ls fl =
     (case read_string fl of
        None \<Rightarrow> None
      | Some (Inl e) \<Rightarrow> Some (Inl e)
      | Some (Inr (val, fl')) \<Rightarrow>
          if val = [] then Some (Inr (ls, fl')) else read_locals (ls @ [val]) fl')"

definition read_routine_rec :: "DebugFile \<Rightarrow> string \<Rightarrow> (error + DebugFile \<times> string) option" where
  "read_routine_rec self fl =
     bnd (read_uint 2 fl) (\<lambda>(n, fl).
     let (func, self) = get_function self n in
     bnd (read_linenum fl) (\<lambda>(pos, fl).
     bnd (read_addr fl) (\<lambda>(a, fl).
     bnd (read_string fl) (\<lambda>(nm, fl).
     bnd (read_locals [] fl) (\<lambda>(ls, fl).
       Some (Inr (put_function self n
                    (func\<lparr>linenum := Some pos, addr := a, name := nm, locals := Some ls\<rparr>),
                  fl)))))))"

text \<open>The \<^verbatim>\<open>for ix in range(count)\<close> loop of \<^verbatim>\<open>read_lineref_rec\<close>.\<close>

fun read_seqpts ::
  "nat \<Rightarrow> (linepos \<times> int) list \<Rightarrow> string \<Rightarrow> (error + (linepos \<times> int) list \<times> string) option" where
  "read_seqpts 0 pts fl = Some (Inr (pts, fl))"
| "read_seqpts (Suc cnt) pts fl =
     bnd (read_linenum fl) (\<lambda>(pos, fl).
     bnd (read_uint 2 fl) (\<lambda>(a, fl).
       read_seqpts cnt (pts @ [(pos, a)]) fl))"

definition read_lineref_rec :: "DebugFile \<Rightarrow> string \<Rightarrow> (error + DebugFile \<times> string) option" where
  "read_lineref_rec self fl =
     bnd (read_uint 2 fl) (\<lambda>(n, fl).
     let (func, self) = get_function self n;
         pts = (case seqpts func of None \<Rightarrow> [] | Some ps \<Rightarrow> ps) in
     bnd (read_uint 2 fl) (\<lambda>(cnt, fl).
     bnd (read_seqpts (nat cnt) pts fl) (\<lambda>(pts, fl).
       Some (Inr (put_function self n (func\<lparr>seqpts := Some pts\<rparr>), fl)))))"

definition read_routine_end_rec ::
  "DebugFile \<Rightarrow> string \<Rightarrow> (error + DebugFile \<times> string) option" where
  "read_routine_end_rec self fl =
     bnd (read_uint 2 fl) (\<lambda>(n, fl).
     let (func, self) = get_function self n in
     bnd (read_linenum fl) (\<lambda>(pos, fl).
     bnd (read_addr fl) (\<lambda>(a, fl).
       Some (Inr (put_function self n (func\<lparr>endlinenum := Some pos, endaddr := Some a\<rparr>),
                  fl)))))"

text \<open>\<^verbatim>\<open>read_header_rec\<close>: \<^verbatim>\<open>self.header = fl.read(64)\<close>, with no check of the length.\<close>

definition read_header_rec :: "DebugFile \<Rightarrow> string \<Rightarrow> (error + DebugFile \<times> string) option" where
  "read_header_rec self fl = Some (Inr (self\<lparr>header := Some (take 64 fl)\<rparr>, drop 64 fl))"

partial_function (option) read_map_rec ::
  "DebugFile \<Rightarrow> string \<Rightarrow> (error + DebugFile \<times> string) option" where
  "read_map_rec self fl =
     (case read_string fl of
        None \<Rightarrow> None
      | Some (Inl e) \<Rightarrow> Some (Inl e)
      | Some (Inr (nm, fl')) \<Rightarrow>
          if nm = [] then Some (Inr (self, fl'))
          else (case read_addr fl' of
                  None \<Rightarrow> None
                | Some (Inl e) \<Rightarrow> Some (Inl e)
                | Some (Inr (a, fl'')) \<Rightarrow>
                    read_map_rec (self\<lparr>map_tab := (map_tab self)(nm \<mapsto> a)\<rparr>) fl''))"

text \<open>The dispatch table \<^verbatim>\<open>rectable\<close> of \<^verbatim>\<open>DebugFile.__init__\<close>.\<close>

definition rectable ::
  "int \<Rightarrow> (DebugFile \<Rightarrow> string \<Rightarrow> (error + DebugFile \<times> string) option) option" where
  "rectable rectype =
     (if rectype = 1 then Some read_file_rec
      else if rectype = 2 then Some read_class_rec
      else if rectype = 3 then Some read_object_rec
      else if rectype = 4 then Some read_global_rec
      else if rectype = 5 then Some read_attr_rec
      else if rectype = 6 then Some read_prop_rec
      else if rectype = 7 then Some read_fake_action_rec
      else if rectype = 8 then Some read_action_rec
      else if rectype = 9 then Some read_header_rec
      else if rectype = 10 then Some read_lineref_rec
      else if rectype = 11 then Some read_routine_rec
      else if rectype = 12 then Some read_array_rec
      else if rectype = 13 then Some read_map_rec
      else if rectype = 14 then Some read_routine_end_rec
      else None)"

text \<open>
  The record loop of \<^verbatim>\<open>DebugFile.__init__\<close>: \<^verbatim>\<open>while True: dat = fl.read(1);
  rectype = unpack('>B', dat)[0]; ...\<close>
\<close>

partial_function (option) read_records ::
  "DebugFile \<Rightarrow> string \<Rightarrow> (error + DebugFile \<times> string) option" where
  "read_records self fl =
     (case unpack 1 (take 1 fl) of
        Inl e \<Rightarrow> Some (Inl e)
      | Inr rectype \<Rightarrow>
          if rectype = 0 then Some (Inr (self, drop 1 fl))
          else (case rectable rectype of
                  None \<Rightarrow> Some (Inl (UnknownRecordType rectype))
                | Some recfunc \<Rightarrow>
                    (case recfunc self (drop 1 fl) of
                       None \<Rightarrow> None
                     | Some (Inl e) \<Rightarrow> Some (Inl e)
                     | Some (Inr (self', fl')) \<Rightarrow> read_records self' fl')))"

text \<open>
  \<^verbatim>\<open>DebugFile.__init__(self, fl)\<close>: the magic number, the two version numbers, the
  records, and then \<^verbatim>\<open>for func in self.functions.values():
  self.function_names[func.name] = func\<close>. The result is the constructed object.
\<close>

definition DebugFile_init :: "string \<Rightarrow> (error + DebugFile) option" where
  "DebugFile_init fl =
     bnd (read_uint 2 fl) (\<lambda>(val, fl).
     if val \<noteq> 0xDEBF then Some (Inl NotDebugFile)
     else
     bnd (read_uint 2 fl) (\<lambda>(dv, fl).
     bnd (read_uint 2 fl) (\<lambda>(iv, fl).
     bnd (read_records (DebugFile_new dv iv) fl) (\<lambda>(self, fl).
       Some (Inr (self\<lparr>function_names :=
                         fold (\<lambda>func names. names(name func \<mapsto> func))
                           (dict_values (functions self)) (function_names self)\<rparr>))))))"

text \<open>
  The map built from a debug file:
  \<^verbatim>\<open>sourcemap = {}; for func in debugfile.functions.values():
  sourcemap[func.addr] = ( func.linenum[1], func.name)\<close>. Indexing \<^verbatim>\<open>None\<close> raises
  \<^verbatim>\<open>TypeError\<close>.
\<close>

fun debug_sourcemap ::
  "(int \<times> string) pydict \<Rightarrow> InformFunc list \<Rightarrow> error + (int \<times> string) pydict" where
  "debug_sourcemap sourcemap [] = Inr sourcemap"
| "debug_sourcemap sourcemap (func # funcs) =
     (case linenum func of
        None \<Rightarrow> Inl TypeError
      | Some (f, l, c) \<Rightarrow> debug_sourcemap (dict_set sourcemap (addr func) (l, name func)) funcs)"

definition sourcemap_of_debugfile :: "DebugFile \<Rightarrow> error + (int \<times> string) pydict" where
  "sourcemap_of_debugfile debugfile = debug_sourcemap [] (dict_values (functions debugfile))"

section \<open>Vocabulary of the properties, and examples\<close>



text \<open>
  What holds of every dictionary the trace reader builds: the keys are distinct, a record
  is stored under its own address, it is special exactly at the addresses 1 and 2, its line
  is 0, and its name is \<^verbatim>\<open><???>\<close> unless it is special.
\<close>

definition keyed :: "Function pydict \<Rightarrow> bool" where
  "keyed d =
     (distinct (map fst d) \<and>
      (\<forall>k f. (k, f) \<in> set d \<longrightarrow>
         Function.addr f = k \<and> special f = (k = 1 \<or> k = 2) \<and> Function.linenum f = 0 \<and>
         (k \<noteq> 1 \<longrightarrow> k \<noteq> 2 \<longrightarrow> Function.name f = ''<???>'')))"

text \<open>
  A \<^verbatim>\<open>function\<close> element of a trace, with the attributes \<^verbatim>\<open>addr\<close>, \<^verbatim>\<open>call_count\<close>
  (1), \<^verbatim>\<open>total_ops\<close>, \<^verbatim>\<open>total_time\<close>, \<^verbatim>\<open>self_ops\<close> and \<^verbatim>\<open>self_time\<close>.
\<close>

definition function_element ::
  "string \<Rightarrow> string \<Rightarrow> string \<Rightarrow> string \<Rightarrow> string \<Rightarrow> string \<times> (string \<rightharpoonup> string)" where
  "function_element a tops ttime sops stime =
     (''function'',
      [''addr'' \<mapsto> a, ''call_count'' \<mapsto> ''1'', ''total_ops'' \<mapsto> tops, ''total_time'' \<mapsto> ttime,
       ''self_ops'' \<mapsto> sops, ''self_time'' \<mapsto> stime])"

text \<open>A trace with records at the addresses 0x40, 1, 2 and 0x3c, in this order.\<close>

definition trace_40_1_2_3c :: "(string \<times> (string \<rightharpoonup> string)) list" where
  "trace_40_1_2_3c =
     [(''profile'', Map.empty),
      function_element ''40'' ''7'' ''0.5'' ''7'' ''0.5'',
      function_element ''1'' ''0'' ''2.0'' ''0'' ''2.0'',
      function_element ''2'' ''0'' ''0.25'' ''0'' ''0.25'',
      function_element ''3c'' ''9'' ''3.0'' ''2'' ''0.25'']"

text \<open>A list of records in descending order of \<^verbatim>\<open>self_time\<close>.\<close>

abbreviation descending :: "Function list \<Rightarrow> bool" where
  "descending ls \<equiv> sorted_wrt (\<lambda>a b. self_time b \<le> self_time a) ls"

text \<open>
  A trace with the records A, B, C in this order: at 0x3c, 0x40 and 0x4a, with
  \<^verbatim>\<open>self_time\<close> 5.0, 5.0 and 3.0.
\<close>

definition trace_A_B_C :: "(string \<times> (string \<rightharpoonup> string)) list" where
  "trace_A_B_C =
     [(''profile'', Map.empty),
      function_element ''3c'' ''9'' ''9.0'' ''4'' ''5.0'',
      function_element ''40'' ''6'' ''5.0'' ''6'' ''5.0'',
      function_element ''4a'' ''3'' ''3.0'' ''3'' ''3.0'']"

text \<open>
  A line is blank when \<^verbatim>\<open>ls\<close> is empty; \<open>captured\<close> is the value of \<^verbatim>\<open>lasttup\<close> after
  the line.
\<close>

definition blank :: "string \<Rightarrow> bool" where
  "blank line = (split (strip line) = [])"

definition captured :: "builtins \<Rightarrow> string \<Rightarrow> (int \<times> string \<times> int) option" where
  "captured rt line = definition_line rt (split (strip line))"

text \<open>
  The captures of the lines that are directly followed by a blank line, as (address, line
  number, name), in the order of the file; \<open>store\<close> assigns them to a dictionary in this
  order.
\<close>

fun commits :: "builtins \<Rightarrow> string list \<Rightarrow> (int \<times> int \<times> string) list" where
  "commits rt (line # next # lns) =
     (case captured rt line of
        Some (lnum, funcname, a) \<Rightarrow>
          if blank next then (a, lnum, funcname) # commits rt (next # lns)
          else commits rt (next # lns)
      | None \<Rightarrow> commits rt (next # lns))"
| "commits rt lns = []"

definition store :: "(int \<times> string) pydict \<Rightarrow> (int \<times> int \<times> string) list \<Rightarrow> (int \<times> string) pydict" where
  "store sourcemap cs = foldl (\<lambda>sm (a, v). dict_set sm a v) sourcemap cs"

text \<open>What \<^verbatim>\<open>lasttup\<close> commits at the next line of \<open>lns\<close>.\<close>

definition pending ::
  "(int \<times> string \<times> int) option \<Rightarrow> string list \<Rightarrow> (int \<times> int \<times> string) list" where
  "pending lasttup lns =
     (case lasttup of
        None \<Rightarrow> []
      | Some (lnum, funcname, a) \<Rightarrow>
          (case lns of [] \<Rightarrow> [] | next # _ \<Rightarrow> if blank next then [(a, lnum, funcname)] else []))"

text \<open>A listing with four definition lines.\<close>

definition listing :: "string list" where
  "listing =
     [''  10  +3c  [ Main  \<newline>'', ''\<newline>'', ''x +10 [ Foo\<newline>'', ''\<newline>'',
      ''11 +44 [ Baz\<newline>'', ''   code\<newline>'', ''\<newline>'', ''12 +40 [ Bar\<newline>'']"

text \<open>
  \<open>steps self fl recs self' fl'\<close>: from the state \<open>self\<close> and the file position \<open>fl\<close> the
  record loop reads the records \<open>recs\<close>, each of them successfully, and is then in the
  state \<open>self'\<close> at the position \<open>fl'\<close>. A record is listed as its tag and the file after
  the tag.
\<close>

inductive steps ::
  "DebugFile \<Rightarrow> string \<Rightarrow> (int \<times> string) list \<Rightarrow> DebugFile \<Rightarrow> string \<Rightarrow> bool" where
  steps_none: "steps self fl [] self fl"
| steps_record:
    "unpack 1 (take 1 fl) = Inr rectype \<Longrightarrow> rectype \<noteq> 0 \<Longrightarrow> rectable rectype = Some recfunc \<Longrightarrow>
     recfunc self (drop 1 fl) = Some (Inr (self1, fl1)) \<Longrightarrow> steps self1 fl1 recs self' fl' \<Longrightarrow>
     steps self fl ((rectype, drop 1 fl) # recs) self' fl'"

text \<open>
  A file that starts with the magic number 0xDEBF and the two version numbers, and the
  body that follows them.
\<close>

definition debug_header :: "string \<Rightarrow> (int \<times> int \<times> string) option" where
  "debug_header fl =
     (case read_uint 2 fl of
        Some (Inr (val, fl1)) \<Rightarrow>
          if val = 0xDEBF then
            (case read_uint 2 fl1 of
               Some (Inr (dv, fl2)) \<Rightarrow>
                 (case read_uint 2 fl2 of
                    Some (Inr (iv, body)) \<Rightarrow> Some (dv, iv, body)
                  | _ \<Rightarrow> None)
             | _ \<Rightarrow> None)
          else None
      | _ \<Rightarrow> None)"

text \<open>The header of the examples: the magic number, and the versions 1 and 2.\<close>

definition magic_and_versions :: string where
  "magic_and_versions = [CHR 0xDE, CHR 0xBF, CHR 0x00, CHR 0x01, CHR 0x00, CHR 0x02]"

text \<open>A Global record: the tag 4, the id 1 and the name \<^verbatim>\<open>A\<close>.\<close>

definition global_record_A :: string where
  "global_record_A = [CHR 0x04, CHR 0x01, CHR ''A'', CHR 0x00]"

text \<open>
  \<open>refers rectype n rec\<close>: the record \<open>rec\<close> has the tag \<open>rectype\<close> and starts with the
  function id \<open>n\<close>.
\<close>

definition refers :: "int \<Rightarrow> int \<Rightarrow> int \<times> string \<Rightarrow> bool" where
  "refers rectype n rec = (fst rec = rectype \<and> unpack 2 (take 2 (snd rec)) = Inr n)"

text \<open>The object \<^verbatim>\<open>get_function(n)\<close> returns in the state \<open>self\<close>.\<close>

definition entry :: "DebugFile \<Rightarrow> int \<Rightarrow> InformFunc" where
  "entry self n = (case dict_get (functions self) n of None \<Rightarrow> InformFunc_init n | Some func \<Rightarrow> func)"

text \<open>
  The layout of the records: \<open>uint dat\<close> is the big-endian value of the bytes \<open>dat\<close>,
  \<open>position dat\<close> the position (file, line, character) that four bytes encode,
  \<open>cstrings ss\<close> the strings \<open>ss\<close>, each followed by a zero byte, and \<open>seqpt dat\<close> the
  sequence point (position, address) that six bytes encode.
\<close>

definition uint :: "string \<Rightarrow> int" where
  "uint dat = foldl (\<lambda>v c. v * 256 + of_char c) 0 dat"

definition position :: "string \<Rightarrow> linepos" where
  "position dat = (uint (take 1 dat), uint (take 2 (drop 1 dat)), uint (drop 3 dat))"

definition cstrings :: "string list \<Rightarrow> string" where
  "cstrings ss = concat (map (\<lambda>s. s @ [CHR 0x00]) ss)"

definition seqpt :: "string \<Rightarrow> linepos \<times> int" where
  "seqpt dat = (position (take 4 dat), uint (drop 4 dat))"

text \<open>The sequence points of an entry, none read so far counting as the empty list.\<close>

definition points :: "InformFunc \<Rightarrow> (linepos \<times> int) list" where
  "points func = (case seqpts func of None \<Rightarrow> [] | Some ps \<Rightarrow> ps)"

text \<open>
  A Line-reference record for the function id 5 with one sequence point (position
  (1, 7, 2), address 0x10); the body of a Routine-end record for the id 5 (position
  (1, 9, 2), address 0x20); and a Routine record for the id 5 (position (1, 7, 2), address
  0x10, name \<^verbatim>\<open>A\<close>, one local \<^verbatim>\<open>x\<close>).
\<close>

definition lineref_record_5 :: string where
  "lineref_record_5 =
     [CHR 0x0A, CHR 0x00, CHR 0x05, CHR 0x00, CHR 0x01,
      CHR 0x01, CHR 0x00, CHR 0x07, CHR 0x02, CHR 0x00, CHR 0x10]"

definition routine_end_body_5 :: string where
  "routine_end_body_5 =
     [CHR 0x00, CHR 0x05, CHR 0x01, CHR 0x00, CHR 0x09, CHR 0x02, CHR 0x00, CHR 0x00, CHR 0x20]"

definition routine_record_5 :: string where
  "routine_record_5 =
     [CHR 0x0B, CHR 0x00, CHR 0x05, CHR 0x01, CHR 0x00, CHR 0x07, CHR 0x02,
      CHR 0x00, CHR 0x00, CHR 0x10, CHR ''A'', CHR 0x00, CHR ''x'', CHR 0x00, CHR 0x00]"

text \<open>The states after the Line-reference record, and after the Routine record.\<close>

definition lineref_state :: DebugFile where
  "lineref_state =
     (DebugFile_new 1 2)
       \<lparr>functions := [(5, (InformFunc_init 5)\<lparr>seqpts := Some [((1, 7, 2), 16)]\<rparr>)]\<rparr>"

definition routine_state :: DebugFile where
  "routine_state =
     (DebugFile_new 1 2)
       \<lparr>functions := [(5, (InformFunc_init 5)
                            \<lparr>linenum := Some (1, 7, 2), addr := 16, name := ''A'',
                             locals := Some [''x'']\<rparr>)]\<rparr>"

section \<open>Properties\<close>

lemma set_dict_items: "set (dict_items d) = set d"
  by (simp add: dict_items_def)

lemma mset_dict_items: "mset (dict_items d) = mset d"
  by (simp add: dict_items_def)

lemma set_dict_values: "set (dict_values d) = snd ` set d"
  by (simp add: dict_values_def set_dict_items)

lemma map_of_replace_other:
  "k' \<noteq> k \<Longrightarrow> map_of (map (\<lambda>(k', v'). if k' = k then (k', v) else (k', v')) d) k' = map_of d k'"
  by (induction d) auto

lemma map_of_replace_same:
  "k \<in> fst ` set d \<Longrightarrow> map_of (map (\<lambda>(k', v'). if k' = k then (k', v) else (k', v')) d) k = Some v"
proof (induction d)
  case Nil
  then show ?case by simp
next
  case (Cons p d)
  obtain k0 v0 where p: "p = (k0, v0)" by (cases p)
  show ?case
  proof (cases "k0 = k")
    case True
    with p show ?thesis by simp
  next
    case False
    with Cons.prems p have "k \<in> fst ` set d" by auto
    with Cons.IH False p show ?thesis by simp
  qed
qed

lemma dict_get_set: "dict_get (dict_set d k v) k' = (if k' = k then Some v else dict_get d k')"
proof (cases "k \<in> fst ` set d")
  case False
  then have "map_of d k = None" by (simp add: map_of_eq_None_iff)
  with False show ?thesis by (auto simp: dict_get_def dict_set_def map_add_def split: option.splits)
next
  case True
  then show ?thesis
    by (simp add: dict_get_def dict_set_def map_of_replace_other map_of_replace_same)
qed

lemma set_dict_set: "set (dict_set d k v) \<subseteq> insert (k, v) (set d)"
  by (auto simp: dict_set_def split: if_splits)

lemma map_fst_replace:
  "map fst (map (\<lambda>(k', v'). if k' = k then (k', v) else (k', v')) d) = map fst d"
  by (induction d) auto

lemma keys_dict_set: "set (map fst (dict_set d k v)) = insert k (set (map fst d))"
proof (cases "k \<in> fst ` set d")
  case True
  then show ?thesis unfolding dict_set_def by (simp only: if_True map_fst_replace) auto
next
  case False
  then show ?thesis unfolding dict_set_def by simp
qed

lemma distinct_dict_set: "distinct (map fst d) \<Longrightarrow> distinct (map fst (dict_set d k v))"
  unfolding dict_set_def by (cases "k \<in> fst ` set d") (simp_all only: if_True if_False map_fst_replace, auto)







lemma Function_init_Inr:
  assumes "Function_init rt a hexa attrs = Inr f"
  shows "\<exists>cc ac tops ttime sops stime.
           attr_int rt attrs ''call_count'' = Inr cc
         \<and> attr_int rt attrs ''total_ops'' = Inr tops
         \<and> attr_float rt attrs ''total_time'' = Inr ttime
         \<and> attr_int rt attrs ''self_ops'' = Inr sops
         \<and> attr_float rt attrs ''self_time'' = Inr stime
         \<and> f = \<lparr>Function.addr = a, hexaddr = hexa,
                 name = (case special_functions a of None \<Rightarrow> ''<???>'' | Some v \<Rightarrow> ''<@'' @ v @ ''>''),
                 special = (case special_functions a of None \<Rightarrow> False | Some v \<Rightarrow> True),
                 linenum = 0, call_count = cc, accel_count = ac, total_ops = tops,
                 total_time = ttime, self_ops = sops, self_time = stime\<rparr>"
  using assms unfolding Function_init_def Let_def
  by (simp split: sum.splits) blast

lemma Function_init_fields:
  assumes "Function_init rt a hexa attrs = Inr f"
  shows "Function.addr f = a" and "special f = (a = 1 \<or> a = 2)"
    and "a \<noteq> 1 \<Longrightarrow> a \<noteq> 2 \<Longrightarrow> Function.name f = ''<???>''" and "Function.linenum f = 0"
proof -
  from Function_init_Inr [OF assms] obtain cc ac tops ttime sops stime where
    f: "f = \<lparr>Function.addr = a, hexaddr = hexa,
                 name = (case special_functions a of None \<Rightarrow> ''<???>'' | Some v \<Rightarrow> ''<@'' @ v @ ''>''),
                 special = (case special_functions a of None \<Rightarrow> False | Some v \<Rightarrow> True),
                 linenum = 0, call_count = cc, accel_count = ac, total_ops = tops,
                 total_time = ttime, self_ops = sops, self_time = stime\<rparr>"
    by blast
  show "Function.addr f = a" by (simp add: f)
  show "special f = (a = 1 \<or> a = 2)" by (simp add: f special_functions_def)
  show "a \<noteq> 1 \<Longrightarrow> a \<noteq> 2 \<Longrightarrow> Function.name f = ''<???>''" by (simp add: f special_functions_def)
  show "Function.linenum f = 0" by (simp add: f)
qed

lemma keyedD:
  assumes "keyed d" and "(k, f) \<in> set d"
  shows "Function.addr f = k" and "special f = (k = 1 \<or> k = 2)" and "Function.linenum f = 0"
    and "k \<noteq> 1 \<Longrightarrow> k \<noteq> 2 \<Longrightarrow> Function.name f = ''<???>''"
  using assms unfolding keyed_def by simp_all

lemma keyed_distinct: "keyed d \<Longrightarrow> distinct (map fst d)"
  unfolding keyed_def by simp

lemma keyed_Nil: "keyed []"
  unfolding keyed_def by simp

lemma keyed_dict_set:
  assumes "keyed d" and "Function_init rt k hexa attrs = Inr f"
  shows "keyed (dict_set d k f)"
  unfolding keyed_def
proof (intro conjI allI impI)
  show "distinct (map fst (dict_set d k f))"
    using keyed_distinct [OF assms(1)] by (rule distinct_dict_set)
next
  fix k' f' assume "(k', f') \<in> set (dict_set d k f)"
  with set_dict_set [of d k f] have c: "(k', f') = (k, f) \<or> (k', f') \<in> set d"
    by (simp add: subset_iff)
  note i = Function_init_fields [OF assms(2)]
  from c i(1) keyedD(1) [OF assms(1)] show "Function.addr f' = k'" by auto
  from c i(2) keyedD(2) [OF assms(1)] show "special f' = (k' = 1 \<or> k' = 2)" by auto
  from c i(4) keyedD(3) [OF assms(1)] show "Function.linenum f' = 0" by auto
  assume "k' \<noteq> 1" "k' \<noteq> 2"
  with c i(3) keyedD(4) [OF assms(1)] show "Function.name f' = ''<???>''" by auto
qed

lemma startElement_function:
  assumes "startElement rt fs ''function'' attrs = Inr r"
  shows "\<exists>hexa a func d. Function_init rt a hexa attrs = Inr func \<and> fs = Some d
           \<and> attrs ''addr'' = Some hexa \<and> int_of rt 16 hexa = Inr a
           \<and> r = Some (dict_set d a func)"
  using assms unfolding startElement_def Let_def
  by (simp split: option.splits sum.splits)

lemma startElement_other:
  "nm \<noteq> ''function'' \<Longrightarrow>
     startElement rt fs nm attrs = Inr (if nm = ''profile'' then Some [] else fs)"
  unfolding startElement_def Let_def by simp

lemma keyed_startElement:
  assumes "startElement rt fs nm attrs = Inr (Some d')" and "\<forall>d. fs = Some d \<longrightarrow> keyed d"
  shows "keyed d'"
proof (cases "nm = ''function''")
  case True
  with startElement_function [of rt fs attrs "Some d'"] assms(1) obtain hexa a func d where
    f: "Function_init rt a hexa attrs = Inr func" and d: "fs = Some d" and d': "d' = dict_set d a func"
    by auto
  from d assms(2) have "keyed d" by simp
  with f d' show ?thesis by (simp add: keyed_dict_set)
next
  case False
  from assms(1) startElement_other [OF False, of rt fs attrs]
  have "Some d' = (if nm = ''profile'' then Some [] else fs)" by simp
  with assms(2) show ?thesis by (auto simp: keyed_Nil split: if_splits)
qed

lemma keyed_sax_parse:
  "sax_parse rt fs els = Inr (Some d') \<Longrightarrow> (\<forall>d. fs = Some d \<longrightarrow> keyed d) \<Longrightarrow> keyed d'"
proof (induction els arbitrary: fs)
  case Nil
  then show ?case by simp
next
  case (Cons el els)
  obtain nm attrs where el: "el = (nm, attrs)" by (cases el)
  from Cons.prems(1) el obtain fs' where
    s: "startElement rt fs nm attrs = Inr fs'" and r: "sax_parse rt fs' els = Inr (Some d')"
    by (auto split: sum.splits)
  have "\<forall>d. fs' = Some d \<longrightarrow> keyed d"
    using keyed_startElement [of rt fs nm attrs] s Cons.prems(2) by blast
  with Cons.IH [OF r] show ?case .
qed

lemma source_start_Min:
  assumes "\<exists>f \<in> snd ` set d. \<not> special f"
  shows "source_start d = Inr (Min (Function.addr ` {f \<in> snd ` set d. \<not> special f}))"
proof -
  let ?xs = "[Function.addr func. func \<leftarrow> dict_values d, \<not> special func]"
  have s: "set ?xs = Function.addr ` {f \<in> snd ` set d. \<not> special f}"
    by (auto simp: set_dict_values)
  from assms have "Function.addr ` {f \<in> snd ` set d. \<not> special f} \<noteq> {}" by blast
  with s have "?xs \<noteq> []" by (metis empty_set)
  then obtain a as where xs: "?xs = a # as" by (cases ?xs) auto
  then have "source_start d = Inr (fold min as a)" by (simp add: source_start_def)
  also have "fold min as a = Min (set (a # as))" by (rule Min.set_eq_fold [symmetric])
  finally show ?thesis using s xs by simp
qed

lemma keyed_nonspecial:
  assumes k: "keyed fns"
  shows "{k \<in> fst ` set fns. k \<noteq> 1 \<and> k \<noteq> 2}
           = Function.addr ` {f \<in> snd ` set fns. \<not> special f}"
proof (intro set_eqI iffI)
  fix x assume "x \<in> {k \<in> fst ` set fns. k \<noteq> 1 \<and> k \<noteq> 2}"
  then obtain f where m: "(x, f) \<in> set fns" and x: "x \<noteq> 1" "x \<noteq> 2" by auto
  from keyedD(1,2) [OF k m] x have "Function.addr f = x" "\<not> special f" by auto
  moreover from m have "f \<in> snd ` set fns" by (simp add: image_iff rev_bexI)
  ultimately show "x \<in> Function.addr ` {f \<in> snd ` set fns. \<not> special f}" by blast
next
  fix x assume "x \<in> Function.addr ` {f \<in> snd ` set fns. \<not> special f}"
  then obtain k' f where m: "(k', f) \<in> set fns" and x: "x = Function.addr f" "\<not> special f" by auto
  from keyedD(1,2) [OF k m] x have "x = k'" "k' \<noteq> 1" "k' \<noteq> 2" by auto
  moreover from m have "k' \<in> fst ` set fns" by (simp add: image_iff rev_bexI)
  ultimately show "x \<in> {k \<in> fst ` set fns. k \<noteq> 1 \<and> k \<noteq> 2}" by simp
qed

text \<open>
  Claim C2. For the records read from any trace that holds at least one record whose
  address is neither 1 nor 2, \<^verbatim>\<open>source_start\<close> is the least address among the
  non-special records; the non-special records are exactly those at addresses other than
  the two sentinels 1 and 2.
\<close>

theorem source_start_minimum:
  assumes "sax_parse rt None els = Inr (Some fns)"
    and "\<exists>k \<in> fst ` set fns. k \<noteq> 1 \<and> k \<noteq> 2"
  shows "source_start fns = Inr (Min {k \<in> fst ` set fns. k \<noteq> 1 \<and> k \<noteq> 2})
       \<and> {k \<in> fst ` set fns. k \<noteq> 1 \<and> k \<noteq> 2}
           = Function.addr ` {f \<in> snd ` set fns. \<not> special f}"
proof -
  have k: "keyed fns" using keyed_sax_parse [OF assms(1)] by simp
  note e = keyed_nonspecial [OF k]
  from assms(2) e have "\<exists>f \<in> snd ` set fns. \<not> special f" by blast
  from source_start_Min [OF this] e show ?thesis by simp
qed

lemma digits_int_simps:
  "int_of digit_builtins b s = (case digits_int b s of None \<Rightarrow> Inl ValueError | Some n \<Rightarrow> Inr n)"
  "float_of digit_builtins s = (case digits_float s of None \<Rightarrow> Inl ValueError | Some n \<Rightarrow> Inr n)"
  by (simp_all add: int_of_def float_of_def digit_builtins_def)

lemmas eval_trace = function_element_def startElement_def Function_init_def attr_int_def
  attr_float_def attr_def digits_int_simps digits_int_def digits_float_def digit_val_def
  special_functions_def dict_set_def Let_def

text \<open>
  Claim C2, the example of the specification: for records at the addresses 0x40, 1, 2 and
  0x3c, \<^verbatim>\<open>source_start\<close> is 0x3c.
\<close>

theorem source_start_minimum_witness:
  "case sax_parse digit_builtins None trace_40_1_2_3c of
     Inr (Some fns) \<Rightarrow> (\<exists>k \<in> fst ` set fns. k \<noteq> 1 \<and> k \<noteq> 2) \<and> source_start fns = Inr 0x3c
   | _ \<Rightarrow> False"
proof -
  obtain fns where p: "sax_parse digit_builtins None trace_40_1_2_3c = Inr (Some fns)"
    and k: "map fst fns = [0x40, 1, 2, 0x3c]"
    by (simp add: trace_40_1_2_3c_def eval_trace)
  from k have s: "fst ` set fns = {0x40, 1, 2, 0x3c}" by (metis list.set_map list.simps(15) empty_set)
  then have e: "\<exists>k \<in> fst ` set fns. k \<noteq> 1 \<and> k \<noteq> 2" by simp
  have "{k \<in> fst ` set fns. k \<noteq> 1 \<and> k \<noteq> 2} = {0x40, 0x3c}" unfolding s by auto
  with source_start_minimum [OF p e] have "source_start fns = Inr 0x3c" by simp
  with p e show ?thesis by simp
qed






lemma by_time_less: "by_time x y < 0 \<longleftrightarrow> self_time y < self_time x"
  by (simp add: by_time_def cmp_def)

lemma mset_insert_cmp: "mset (insert_cmp c x ys) = add_mset x (mset ys)"
  by (induction ys) auto

lemma set_insert_cmp: "set (insert_cmp c x ys) = insert x (set ys)"
  by (induction ys) auto

lemma descending_insert_cmp:
  "descending ys \<Longrightarrow> descending (insert_cmp by_time x ys)"
proof (induction ys)
  case Nil
  then show ?case by simp
next
  case (Cons y ys)
  show ?case
  proof (cases "by_time x y < 0")
    case True
    then have "self_time y < self_time x" by (simp add: by_time_less)
    with Cons.prems show ?thesis using True by fastforce
  next
    case False
    then have "self_time x \<le> self_time y" by (simp add: by_time_less)
    with Cons False show ?thesis by (auto simp: set_insert_cmp)
  qed
qed

lemma filter_insert_cmp:
  "descending ys \<Longrightarrow>
     filter (\<lambda>f. self_time f = t) (insert_cmp by_time x ys)
       = filter (\<lambda>f. self_time f = t) ys @ (if self_time x = t then [x] else [])"
proof (induction ys)
  case Nil
  then show ?case by simp
next
  case (Cons y ys)
  show ?case
  proof (cases "by_time x y < 0")
    case True
    then have l: "self_time y < self_time x" by (simp add: by_time_less)
    with Cons.prems have "\<forall>z \<in> set (y # ys). self_time z < self_time x" by fastforce
    then have "self_time x = t \<Longrightarrow> filter (\<lambda>f. self_time f = t) (y # ys) = []"
      by (auto simp: filter_empty_conv)
    with True show ?thesis by auto
  next
    case False
    with Cons show ?thesis by auto
  qed
qed

lemma list_sort_acc:
  assumes "descending acc"
  shows "descending (foldl (\<lambda>sorted x. insert_cmp by_time x sorted) acc xs)
       \<and> mset (foldl (\<lambda>sorted x. insert_cmp by_time x sorted) acc xs) = mset acc + mset xs
       \<and> filter (\<lambda>f. self_time f = t) (foldl (\<lambda>sorted x. insert_cmp by_time x sorted) acc xs)
           = filter (\<lambda>f. self_time f = t) acc @ filter (\<lambda>f. self_time f = t) xs"
  using assms
proof (induction xs arbitrary: acc)
  case Nil
  then show ?case by simp
next
  case (Cons x xs)
  from Cons.IH [OF descending_insert_cmp [OF Cons.prems], of x] Cons.prems
  show ?case by (simp add: mset_insert_cmp filter_insert_cmp)
qed

lemma list_sort_by_time:
  "descending (list_sort by_time xs)"
  "mset (list_sort by_time xs) = mset xs"
  "filter (\<lambda>f. self_time f = t) (list_sort by_time xs) = filter (\<lambda>f. self_time f = t) xs"
  using list_sort_acc [of "[]" xs t] by (simp_all add: list_sort_def)

lemma list_sort_eq_sort_key:
  "list_sort by_time xs = sort_key (\<lambda>f. - self_time f) xs"
proof (rule properties_for_sort_key [symmetric])
  show "mset (list_sort by_time xs) = mset xs" by (rule list_sort_by_time)
next
  fix k assume "k \<in> set (list_sort by_time xs)"
  have "filter (\<lambda>f. self_time f = self_time k) (list_sort by_time xs)
          = filter (\<lambda>f. self_time f = self_time k) xs" by (rule list_sort_by_time)
  then show "filter (\<lambda>x. - self_time k = - self_time x) (list_sort by_time xs)
        = filter (\<lambda>x. - self_time k = - self_time x) xs"
    by (simp add: eq_commute)
next
  have "sorted_wrt (\<lambda>a b. - self_time a \<le> - self_time b) (list_sort by_time xs)"
    using list_sort_by_time(1) [of xs] by simp
  then show "sorted (map (\<lambda>f. - self_time f) (list_sort by_time xs))"
    by (simp add: sorted_map)
qed

text \<open>
  Claim C7, as amended. The report is the first 10 records of \<^verbatim>\<open>functions.values()\<close>
  sorted by descending \<^verbatim>\<open>self_time\<close>: the sorted list is descending, it holds the same
  records, and records of equal \<^verbatim>\<open>self_time\<close> keep the order they have in
  \<^verbatim>\<open>functions.values()\<close>, which is the order of the dictionary and not the order of
  discovery. It is the result of the library's stable \<open>sort_key\<close> on that list.
\<close>

theorem report_stable_by_dict_order:
  "report fns = take 10 (list_sort by_time (dict_values fns))
   \<and> descending (list_sort by_time (dict_values fns))
   \<and> mset (list_sort by_time (dict_values fns)) = mset (map snd fns)
   \<and> (\<forall>t. filter (\<lambda>f. self_time f = t) (list_sort by_time (dict_values fns))
            = filter (\<lambda>f. self_time f = t) (dict_values fns))
   \<and> list_sort by_time (dict_values fns) = sort_key (\<lambda>f. - self_time f) (dict_values fns)"
proof (intro conjI allI)
  show "report fns = take 10 (list_sort by_time (dict_values fns))" by (simp add: report_def)
  show "descending (list_sort by_time (dict_values fns))" by (rule list_sort_by_time)
  show "mset (list_sort by_time (dict_values fns)) = mset (map snd fns)"
    by (simp add: list_sort_by_time dict_values_def mset_dict_items)
  show "filter (\<lambda>f. self_time f = t) (list_sort by_time (dict_values fns))
            = filter (\<lambda>f. self_time f = t) (dict_values fns)" for t
    by (rule list_sort_by_time)
  show "list_sort by_time (dict_values fns) = sort_key (\<lambda>f. - self_time f) (dict_values fns)"
    by (rule list_sort_eq_sort_key)
qed

lemma dict_table_3c_40_4a:
  "dict_table [0x3c, 0x40, 0x4a] = [Some 0x40, None, Some 0x4a, None, Some 0x3c, None, None, None]"
  by code_simp

lemma dict_values_3c_40_4a:
  "dict_values [(0x3c, a), (0x40, b), (0x4a, c)] = [b, c, a]"
  by (simp add: dict_values_def dict_items_def dict_table_3c_40_4a slot_of_def)

text \<open>
  Claim C7 as stated fails: the records A, B, C are discovered in this order at the
  addresses 0x3c, 0x40, 0x4a with \<^verbatim>\<open>self_time\<close> 5.0, 5.0, 3.0. Sorting the discovery
  order stably would report A before B; the script reports B before A, since the
  dictionary yields the key 0x40 (slot 0) before 0x3c (slot 4).
\<close>

theorem report_discovery_order_counterexample:
  "case sax_parse digit_builtins None trace_A_B_C of
     Inr (Some fns) \<Rightarrow>
       map hexaddr (map snd fns) = [''3c'', ''40'', ''4a'']
     \<and> map self_time (map snd fns) = [5, 5, 3]
     \<and> map hexaddr (take 10 (sort_key (\<lambda>f. - self_time f) (map snd fns))) = [''3c'', ''40'', ''4a'']
     \<and> map hexaddr (report fns) = [''40'', ''3c'', ''4a'']
     \<and> map hexaddr (take 2 (report fns)) = [''40'', ''3c'']
   | _ \<Rightarrow> False"
  by (simp add: trace_A_B_C_def eval_trace dict_values_3c_40_4a report_def list_sort_def
      by_time_def cmp_def)

text \<open>
  Claim C8, as amended. \<^verbatim>\<open>Function.__init__\<close> validates nothing: for every
  \<^verbatim>\<open>function\<close> element whose attributes convert, the record is created and stored under
  its address, with \<^verbatim>\<open>self_ops\<close>, \<^verbatim>\<open>total_ops\<close>, \<^verbatim>\<open>self_time\<close> and \<^verbatim>\<open>total_time\<close>
  equal to the converted attributes, whatever their order.
\<close>

theorem Function_init_no_validation:
  assumes "attr_int rt attrs ''call_count'' = Inr cc"
    and "(if attrs ''accel_count'' = None then Inr 0 else attr_int rt attrs ''accel_count'') = Inr ac"
    and "attr_int rt attrs ''total_ops'' = Inr tops"
    and "attr_float rt attrs ''total_time'' = Inr ttime"
    and "attr_int rt attrs ''self_ops'' = Inr sops"
    and "attr_float rt attrs ''self_time'' = Inr stime"
    and "attrs ''addr'' = Some hexa" and "int_of rt 16 hexa = Inr a"
  shows "\<exists>f. Function_init rt a hexa attrs = Inr f
           \<and> startElement rt (Some d) ''function'' attrs = Inr (Some (dict_set d a f))
           \<and> self_ops f = sops \<and> total_ops f = tops
           \<and> self_time f = stime \<and> total_time f = ttime"
  using assms unfolding startElement_def Function_init_def Let_def by simp

text \<open>
  Claim C8, an instance: an element with \<^verbatim>\<open>self_ops\<close> 5, \<^verbatim>\<open>total_ops\<close> 3,
  \<^verbatim>\<open>self_time\<close> 2.0 and \<^verbatim>\<open>total_time\<close> 1.0.
\<close>

theorem Function_init_no_validation_witness:
  "\<exists>f. Function_init digit_builtins 0x3c ''3c'' (snd (function_element ''3c'' ''3'' ''1.0'' ''5'' ''2.0'')) = Inr f
     \<and> startElement digit_builtins (Some []) ''function''
          (snd (function_element ''3c'' ''3'' ''1.0'' ''5'' ''2.0'')) = Inr (Some [(0x3c, f)])
     \<and> self_ops f = 5 \<and> total_ops f = 3 \<and> self_time f = 2 \<and> total_time f = 1"
proof -
  let ?attrs = "snd (function_element ''3c'' ''3'' ''1.0'' ''5'' ''2.0'')"
  have "\<exists>f. Function_init digit_builtins 0x3c ''3c'' ?attrs = Inr f
           \<and> startElement digit_builtins (Some []) ''function'' ?attrs = Inr (Some (dict_set [] 0x3c f))
           \<and> self_ops f = 5 \<and> total_ops f = 3 \<and> self_time f = 2 \<and> total_time f = 1"
    by (rule Function_init_no_validation [where cc = 1 and ac = 0])
       (simp_all add: function_element_def attr_int_def attr_float_def attr_def digits_int_simps
          digits_int_def digits_float_def digit_val_def)
  then show ?thesis by (simp add: dict_set_def)
qed

text \<open>
  Claim C8 as stated fails: a trace element with \<^verbatim>\<open>self_ops\<close> above \<^verbatim>\<open>total_ops\<close> and
  \<^verbatim>\<open>self_time\<close> above \<^verbatim>\<open>total_time\<close> is accepted into the collection as it is.
\<close>

theorem Function_init_validation_counterexample:
  "case sax_parse digit_builtins None
          [(''profile'', Map.empty), function_element ''3c'' ''3'' ''1.0'' ''5'' ''2.0''] of
     Inr (Some fns) \<Rightarrow>
       (case dict_get fns 0x3c of
          Some f \<Rightarrow> total_ops f < self_ops f \<and> total_time f < self_time f
        | None \<Rightarrow> False)
   | _ \<Rightarrow> False"
  by (simp add: eval_trace dict_get_def)

lemma definition_line_iff:
  "definition_line rt ls = Some (lnum, funcname, a) \<longleftrightarrow>
     length ls \<ge> 4 \<and> startswith (ls ! 1) ''+'' \<and> ls ! 2 = ''[''
     \<and> py_int rt 10 (ls ! 0) = Some lnum \<and> py_int rt 16 (drop 1 (ls ! 1)) = Some a
     \<and> funcname = ls ! 3"
  by (auto simp: definition_line_def int_of_def split: option.splits)

lemma captured_blank: "blank line \<Longrightarrow> captured rt line = None"
  by (simp add: blank_def captured_def definition_line_def)

lemma pending_commits: "pending (captured rt line) rest @ commits rt rest = commits rt (line # rest)"
  by (cases rest) (auto simp: pending_def split: option.splits)

lemma store_append: "store (store sm xs) ys = store sm (xs @ ys)"
  by (simp add: store_def)

lemma parse_asm_loop_commits:
  "[] \<notin> set lns \<Longrightarrow>
     parse_asm_loop rt sm lasttup lns = store sm (pending lasttup lns @ commits rt lns)"
proof (induction lns arbitrary: sm lasttup)
  case Nil
  then show ?case by (simp add: pending_def store_def split: option.splits)
next
  case (Cons line rest)
  from Cons.prems have ne: "line \<noteq> []" and r: "[] \<notin> set rest" by auto
  define sm1 where "sm1 = store sm (pending lasttup (line # rest))"
  have "parse_asm_loop rt sm lasttup (line # rest) = parse_asm_loop rt sm1 (captured rt line) rest"
    using ne by (auto simp: sm1_def pending_def store_def blank_def captured_def Let_def
        split: option.splits)
  also have "\<dots> = store sm1 (pending (captured rt line) rest @ commits rt rest)"
    by (rule Cons.IH [OF r])
  also have "\<dots> = store sm (pending lasttup (line # rest) @ commits rt (line # rest))"
    by (simp add: sm1_def store_append pending_commits)
  finally show ?case .
qed

text \<open>
  Claim C9, as amended. A line is captured as a function definition exactly when, split at
  white space, it has at least 4 tokens, token 1 starts with \<^verbatim>\<open>+\<close>, token 2 is \<^verbatim>\<open>[\<close>, and
  both \<^verbatim>\<open>int(token[0])\<close> and \<^verbatim>\<open>int(token[1][1:], 16)\<close> succeed; the capture is that line
  number, that address and token 3. The map is the captures of the lines that are directly
  followed by a blank line, stored in this order (\<open>commits\<close>): a definition followed by a
  line that is not blank, or by the end of the file, is not committed.
\<close>

theorem parse_asm_commit_on_blank_line:
  "(definition_line rt ls = Some (lnum, funcname, a) \<longleftrightarrow>
      length ls \<ge> 4 \<and> startswith (ls ! 1) ''+'' \<and> ls ! 2 = ''[''
      \<and> py_int rt 10 (ls ! 0) = Some lnum \<and> py_int rt 16 (drop 1 (ls ! 1)) = Some a
      \<and> funcname = ls ! 3)
   \<and> ([] \<notin> set lns \<longrightarrow> parse_asm rt lns = store [] (commits rt lns))"
  using definition_line_iff [of rt ls lnum funcname a] parse_asm_loop_commits [of lns rt "[]" None]
  by (simp add: parse_asm_def pending_def)

lemmas eval_asm = split_def strip_def isspace_def startswith_def definition_line_def
  digits_int_simps digits_int_def digit_val_def captured_def blank_def

text \<open>
  Claim C9, an instance: only the first definition of this listing is committed. The
  second has a line number that is no number, the third is followed by a line of code, the
  fourth by the end of the file.
\<close>

theorem parse_asm_commit_on_blank_line_witness:
  "[] \<notin> set listing
   \<and> definition_line digit_builtins (split (strip (listing ! 0))) = Some (10, ''Main'', 0x3c)
   \<and> commits digit_builtins listing = [(0x3c, 10, ''Main'')]
   \<and> parse_asm digit_builtins listing = [(0x3c, 10, ''Main'')]"
proof -
  have n: "[] \<notin> set listing" by (simp add: listing_def)
  have d: "definition_line digit_builtins (split (strip (listing ! 0))) = Some (10, ''Main'', 0x3c)"
    by (simp add: listing_def eval_asm)
  have c: "commits digit_builtins listing = [(0x3c, 10, ''Main'')]"
    by (simp add: listing_def eval_asm)
  from parse_asm_commit_on_blank_line [of digit_builtins "[]" 0 "[]" 0 listing] n
  have "parse_asm digit_builtins listing = store [] (commits digit_builtins listing)" by simp
  with n d c show ?thesis by (simp add: store_def dict_set_def)
qed

text \<open>
  Claim C9 as stated fails: the line \<^verbatim>\<open>x +10 [ Foo\<close> has four tokens, a token 1 that starts
  with \<^verbatim>\<open>+\<close> and the token 2 \<^verbatim>\<open>[\<close>, but \<^verbatim>\<open>int('x')\<close> raises \<^verbatim>\<open>ValueError\<close>, which is
  passed over: nothing is captured and the blank line after it commits nothing. And a
  definition followed by a line of code and then a blank line is not committed either.
\<close>

theorem parse_asm_marker_counterexample:
  "(let ls = split (strip ''x +10 [ Foo\<newline>'') in
      length ls \<ge> 4 \<and> startswith (ls ! 1) ''+'' \<and> ls ! 2 = ''[''
      \<and> definition_line digit_builtins ls = None)
   \<and> parse_asm digit_builtins [''x +10 [ Foo\<newline>'', ''\<newline>''] = []
   \<and> parse_asm digit_builtins [''11 +44 [ Baz\<newline>'', ''   code\<newline>'', ''\<newline>''] = []"
  by (simp add: eval_asm parse_asm_def Let_def)

lemma read_string_loop_nul:
  assumes a: "read_string_loop val fl = Some r"
  shows "CHR 0x00 \<in> set fl"
proof (rule read_string_loop.raw_induct [where P = "\<lambda>val fl r. CHR 0x00 \<in> set fl", OF _ a])
  fix rsl :: "string \<Rightarrow> string \<Rightarrow> (error + string \<times> string) option" and val fl r
  assume IH: "\<And>val fl r. rsl val fl = Some r \<Longrightarrow> CHR 0x00 \<in> set fl"
    and eq: "(if take 1 fl = [CHR 0x00] then Some (Inr (val, drop 1 fl))
              else rsl (val @ take 1 fl) (drop 1 fl)) = Some r"
  show "CHR 0x00 \<in> set fl"
  proof (cases "take 1 fl = [CHR 0x00]")
    case True
    then show ?thesis by (cases fl) auto
  next
    case False
    with eq have "rsl (val @ take 1 fl) (drop 1 fl) = Some r" by simp
    then have "CHR 0x00 \<in> set (drop 1 fl)" by (rule IH)
    then show ?thesis by (rule in_set_dropD)
  qed
qed

lemma read_string_loop_eq:
  "read_string_loop val fl =
     (if CHR 0x00 \<in> set fl
      then Some (Inr (val @ takeWhile (\<lambda>c. c \<noteq> CHR 0x00) fl,
                      drop 1 (dropWhile (\<lambda>c. c \<noteq> CHR 0x00) fl)))
      else None)"
proof (induction fl arbitrary: val)
  case Nil
  have "read_string_loop val [] = None"
    using read_string_loop_nul [of val "[]"] by (cases "read_string_loop val []") auto
  then show ?case by simp
next
  case (Cons c cs)
  show ?case
  proof (cases "c = CHR 0x00")
    case True
    then show ?thesis by (subst read_string_loop.simps) simp
  next
    case False
    have "read_string_loop val (c # cs) = read_string_loop (val @ [c]) cs"
      using False by (subst read_string_loop.simps) simp
    with Cons [of "val @ [c]"] False show ?thesis by simp
  qed
qed

lemma read_string_eq:
  "read_string fl =
     (if CHR 0x00 \<in> set fl
      then Some (Inr (takeWhile (\<lambda>c. c \<noteq> CHR 0x00) fl, drop 1 (dropWhile (\<lambda>c. c \<noteq> CHR 0x00) fl)))
      else None)"
  by (simp add: read_string_def read_string_loop_eq)

lemma bnd_Inr:
  "bnd m f = Some (Inr y) \<longleftrightarrow> (\<exists>x. m = Some (Inr x) \<and> f x = Some (Inr y))"
  by (auto simp: bnd_def split: option.splits sum.splits)

lemma read_map_rec_functions:
  assumes a: "read_map_rec self fl = Some r"
  shows "\<forall>self' fl'. r = Inr (self', fl') \<longrightarrow> functions self' = functions self"
proof (rule read_map_rec.raw_induct
    [where P = "\<lambda>self fl r. \<forall>self' fl'. r = Inr (self', fl') \<longrightarrow> functions self' = functions self",
      OF _ a])
  fix rmr :: "DebugFile \<Rightarrow> string \<Rightarrow> (error + DebugFile \<times> string) option" and self fl r
  assume IH: "\<And>self fl r. rmr self fl = Some r \<Longrightarrow>
                \<forall>self' fl'. r = Inr (self', fl') \<longrightarrow> functions self' = functions self"
    and eq: "(case read_string fl of
        None \<Rightarrow> None
      | Some (Inl e) \<Rightarrow> Some (Inl e)
      | Some (Inr (nm, fl')) \<Rightarrow>
          if nm = [] then Some (Inr (self, fl'))
          else (case read_addr fl' of
                  None \<Rightarrow> None
                | Some (Inl e) \<Rightarrow> Some (Inl e)
                | Some (Inr (a, fl'')) \<Rightarrow>
                    rmr (self\<lparr>map_tab := (map_tab self)(nm \<mapsto> a)\<rparr>) fl'')) = Some r"
  show "\<forall>self' fl'. r = Inr (self', fl') \<longrightarrow> functions self' = functions self"
  proof (intro allI impI)
    fix self' fl' assume r: "r = Inr (self', fl')"
    from eq obtain nm fl1 where s: "read_string fl = Some (Inr (nm, fl1))"
      unfolding r by (auto split: option.splits sum.splits)
    show "functions self' = functions self"
    proof (cases "nm = []")
      case True
      with eq s r show ?thesis by simp
    next
      case False
      with eq s r obtain a fl2 where
        "rmr (self\<lparr>map_tab := (map_tab self)(nm \<mapsto> a)\<rparr>) fl2 = Some (Inr (self', fl'))"
        by (auto split: option.splits sum.splits)
      from IH [OF this] show ?thesis by simp
    qed
  qed
qed

lemma read_uint_Inr:
  "read_uint k fl = Some (Inr (n, fl1)) \<longleftrightarrow> unpack k (take k fl) = Inr n \<and> fl1 = drop k fl"
  by (auto simp: read_uint_def split: sum.splits)

lemma get_function_entry:
  "dict_get (functions (snd (get_function self n))) m =
     (if m = n then Some (fst (get_function self n)) else dict_get (functions self) m)"
  by (auto simp: get_function_def Let_def dict_get_set split: option.splits)

lemma put_function_entry:
  "dict_get (functions (put_function self n func)) m =
     (if m = n then Some func else dict_get (functions self) m)"
  by (simp add: put_function_def dict_get_set)

lemma fst_get_function:
  "fst (get_function self n) =
     (case dict_get (functions self) n of None \<Rightarrow> InformFunc_init n | Some func \<Rightarrow> func)"
  by (simp add: get_function_def Let_def split: option.splits)

lemma read_lineref_rec_effect:
  assumes "read_lineref_rec self body = Some (Inr (self', fl'))"
  shows "\<exists>n pts. unpack 2 (take 2 body) = Inr n
         \<and> (\<forall>m. dict_get (functions self') m =
               (if m = n then Some ((fst (get_function self n))\<lparr>seqpts := Some pts\<rparr>)
                else dict_get (functions self) m))"
proof -
  from assms obtain n fl1 pts where
    n: "read_uint 2 body = Some (Inr (n, fl1))"
    and s: "self' = put_function (snd (get_function self n)) n
              ((fst (get_function self n))\<lparr>seqpts := Some pts\<rparr>)"
    by (auto simp: read_lineref_rec_def Let_def bnd_Inr case_prod_beta)
  from s n show ?thesis
    by (intro exI [of _ n] exI [of _ pts])
       (simp add: read_uint_Inr put_function_entry get_function_entry)
qed

lemma read_routine_end_rec_effect:
  assumes "read_routine_end_rec self body = Some (Inr (self', fl'))"
  shows "\<exists>n pos a. unpack 2 (take 2 body) = Inr n
         \<and> (\<forall>m. dict_get (functions self') m =
               (if m = n
                then Some ((fst (get_function self n))\<lparr>endlinenum := Some pos, endaddr := Some a\<rparr>)
                else dict_get (functions self) m))"
proof -
  from assms obtain n fl1 pos a where
    n: "read_uint 2 body = Some (Inr (n, fl1))"
    and s: "self' = put_function (snd (get_function self n)) n
              ((fst (get_function self n))\<lparr>endlinenum := Some pos, endaddr := Some a\<rparr>)"
    by (auto simp: read_routine_end_rec_def Let_def bnd_Inr case_prod_beta)
  from s n show ?thesis
    by (intro exI [of _ n] exI [of _ pos] exI [of _ a])
       (simp add: read_uint_Inr put_function_entry get_function_entry)
qed

lemma read_routine_rec_effect:
  assumes "read_routine_rec self body = Some (Inr (self', fl'))"
  shows "\<exists>n pos a nm ls fl1 fl2 fl3. unpack 2 (take 2 body) = Inr n
         \<and> read_linenum (drop 2 body) = Some (Inr (pos, fl1))
         \<and> read_addr fl1 = Some (Inr (a, fl2))
         \<and> read_string fl2 = Some (Inr (nm, fl3))
         \<and> (\<forall>m. dict_get (functions self') m =
               (if m = n
                then Some ((fst (get_function self n))
                             \<lparr>linenum := Some pos, addr := a, name := nm, locals := Some ls\<rparr>)
                else dict_get (functions self) m))"
proof -
  from assms obtain n pos a nm ls fl0 fl1 fl2 fl3 where
    n: "read_uint 2 body = Some (Inr (n, fl0))"
    and r: "read_linenum fl0 = Some (Inr (pos, fl1))" "read_addr fl1 = Some (Inr (a, fl2))"
      "read_string fl2 = Some (Inr (nm, fl3))"
    and s: "self' = put_function (snd (get_function self n)) n
              ((fst (get_function self n))
                 \<lparr>linenum := Some pos, addr := a, name := nm, locals := Some ls\<rparr>)"
    by (auto simp: read_routine_rec_def Let_def bnd_Inr case_prod_beta)
  from n have "unpack 2 (take 2 body) = Inr n" "fl0 = drop 2 body" by (simp_all add: read_uint_Inr)
  with s r show ?thesis
    by (intro exI [of _ n] exI [of _ pos] exI [of _ a] exI [of _ nm] exI [of _ ls]
          exI [of _ fl1] exI [of _ fl2] exI [of _ fl3])
       (simp add: put_function_entry get_function_entry)
qed

lemma plain_recs_functions:
  "read_file_rec self body = Some (Inr (self', fl')) \<Longrightarrow> functions self' = functions self"
  "read_class_rec self body = Some (Inr (self', fl')) \<Longrightarrow> functions self' = functions self"
  "read_object_rec self body = Some (Inr (self', fl')) \<Longrightarrow> functions self' = functions self"
  "read_global_rec self body = Some (Inr (self', fl')) \<Longrightarrow> functions self' = functions self"
  "read_attr_rec self body = Some (Inr (self', fl')) \<Longrightarrow> functions self' = functions self"
  "read_prop_rec self body = Some (Inr (self', fl')) \<Longrightarrow> functions self' = functions self"
  "read_fake_action_rec self body = Some (Inr (self', fl')) \<Longrightarrow> functions self' = functions self"
  "read_action_rec self body = Some (Inr (self', fl')) \<Longrightarrow> functions self' = functions self"
  "read_header_rec self body = Some (Inr (self', fl')) \<Longrightarrow> functions self' = functions self"
  "read_array_rec self body = Some (Inr (self', fl')) \<Longrightarrow> functions self' = functions self"
  by (auto simp: read_file_rec_def read_class_rec_def read_object_rec_def read_global_rec_def
      read_attr_rec_def read_prop_rec_def read_fake_action_rec_def read_action_rec_def
      read_header_rec_def read_array_rec_def bnd_Inr)

lemma other_recs_functions:
  assumes "rectable rectype = Some recfunc" and "rectype \<noteq> 10" "rectype \<noteq> 11" "rectype \<noteq> 14"
    and "recfunc self body = Some (Inr (self', fl'))"
  shows "functions self' = functions self"
proof -
  from assms(1-4) consider
      "recfunc = read_file_rec" | "recfunc = read_class_rec" | "recfunc = read_object_rec"
    | "recfunc = read_global_rec" | "recfunc = read_attr_rec" | "recfunc = read_prop_rec"
    | "recfunc = read_fake_action_rec" | "recfunc = read_action_rec" | "recfunc = read_header_rec"
    | "recfunc = read_array_rec" | "recfunc = read_map_rec"
    unfolding rectable_def by (auto split: if_splits)
  then show ?thesis
  proof cases
    case 11
    with assms(5) read_map_rec_functions [of self body "Inr (self', fl')"] show ?thesis by simp
  qed (use assms(5) in \<open>simp_all add: plain_recs_functions\<close>)
qed

lemma function_recs:
  assumes "rectable rectype = Some recfunc"
  shows "rectype = 10 \<Longrightarrow> recfunc = read_lineref_rec"
    and "rectype = 11 \<Longrightarrow> recfunc = read_routine_rec"
    and "rectype = 14 \<Longrightarrow> recfunc = read_routine_end_rec"
  using assms by (simp_all add: rectable_def)

lemma read_records_steps:
  "steps self fl recs self' fl' \<Longrightarrow> read_records self fl = read_records self' fl'"
proof (induction rule: steps.induct)
  case (steps_none self fl)
  show ?case ..
next
  case (steps_record fl rectype recfunc self self1 fl1 recs self' fl')
  then have "read_records self fl = read_records self1 fl1"
    by (subst read_records.simps) simp
  with steps_record.IH show ?case by simp
qed

lemma read_records_zero:
  "unpack 1 (take 1 fl) = Inr 0 \<Longrightarrow> read_records self fl = Some (Inr (self, drop 1 fl))"
  by (subst read_records.simps) simp

lemma read_records_unknown:
  "unpack 1 (take 1 fl) = Inr rectype \<Longrightarrow> rectype \<noteq> 0 \<Longrightarrow> rectable rectype = None \<Longrightarrow>
     read_records self fl = Some (Inl (UnknownRecordType rectype))"
  by (subst read_records.simps) simp

lemma rectable_None: "rectable rectype = None \<longleftrightarrow> rectype \<notin> {1..14}"
  by (auto simp: rectable_def; arith)

lemma of_char_int_nonneg: "(0::int) \<le> of_char t"
  by (simp add: of_char_def)

lemma unpack_tag: "unpack 1 (take 1 (t # rest)) = Inr (of_char t)"
  by (simp add: unpack_def)

lemma DebugFile_init_header:
  "debug_header fl = Some (dv, iv, body) \<Longrightarrow>
     DebugFile_init fl =
       bnd (read_records (DebugFile_new dv iv) body) (\<lambda>(self, fl).
         Some (Inr (self\<lparr>function_names :=
                         fold (\<lambda>func names. names(InformFunc.name func \<mapsto> func))
                           (dict_values (functions self)) (function_names self)\<rparr>)))"
  by (auto simp: debug_header_def DebugFile_init_def bnd_def
      split: option.splits sum.splits if_splits)

text \<open>
  Claim C3. After a valid header and any number of records read successfully (\<open>steps\<close>),
  a tag byte that is not 0 and not in 1..14 makes \<^verbatim>\<open>DebugFile.__init__\<close> raise the error
  of an unknown record type, so no object is returned; a tag byte 0 ends the loop and the
  constructor returns the object.
\<close>

theorem unknown_record_type_is_fatal:
  assumes "debug_header fl = Some (dv, iv, body)"
    and "steps (DebugFile_new dv iv) body recs self (t # rest)"
  shows "((of_char t :: int) \<notin> {0..14} \<longrightarrow>
            DebugFile_init fl = Some (Inl (UnknownRecordType (of_char t))))
       \<and> (t = CHR 0x00 \<longrightarrow> (\<exists>db. DebugFile_init fl = Some (Inr db)))"
proof (intro conjI impI)
  note r = read_records_steps [OF assms(2)]
  {
    assume "(of_char t :: int) \<notin> {0..14}"
    with of_char_int_nonneg [of t] have "(of_char t :: int) \<noteq> 0" "rectable (of_char t) = None"
      by (simp_all add: rectable_None)
    with read_records_unknown [OF unpack_tag, of t self rest]
    have "read_records self (t # rest) = Some (Inl (UnknownRecordType (of_char t)))" by simp
    with r show "DebugFile_init fl = Some (Inl (UnknownRecordType (of_char t)))"
      by (simp add: DebugFile_init_header [OF assms(1)] bnd_def)
  next
    assume "t = CHR 0x00"
    with read_records_zero [of "t # rest" self]
    have "read_records self (t # rest) = Some (Inr (self, rest))" by (simp add: unpack_def)
    with r show "\<exists>db. DebugFile_init fl = Some (Inr db)"
      by (simp add: DebugFile_init_header [OF assms(1)] bnd_def)
  }
qed

lemmas eval_readers = read_uint_def unpack_def read_addr_def read_linenum_def read_string_eq
  bnd_def

lemma debug_header_example:
  "debug_header (magic_and_versions @ body) = Some (1, 2, body)"
  by (simp add: debug_header_def magic_and_versions_def eval_readers)

lemma read_global_rec_A:
  "read_global_rec self (CHR 0x01 # CHR ''A'' # CHR 0x00 # rest)
     = Some (Inr (self\<lparr>arrays := (arrays self)(1 \<mapsto> ''A'')\<rparr>, rest))"
  by (simp add: read_global_rec_def eval_readers)

lemma steps_global_record_A:
  "steps self (global_record_A @ rest) [(4, CHR 0x01 # CHR ''A'' # CHR 0x00 # rest)]
     (self\<lparr>arrays := (arrays self)(1 \<mapsto> ''A'')\<rparr>) rest"
proof -
  have "steps self (global_record_A @ rest) [(4, drop 1 (global_record_A @ rest))]
     (self\<lparr>arrays := (arrays self)(1 \<mapsto> ''A'')\<rparr>) rest"
  proof (rule steps_record [where recfunc = read_global_rec])
    show "unpack 1 (take 1 (global_record_A @ rest)) = Inr 4"
      by (simp add: global_record_A_def unpack_def)
    show "(4::int) \<noteq> 0" by simp
    show "rectable 4 = Some read_global_rec" by (simp add: rectable_def)
    show "read_global_rec self (drop 1 (global_record_A @ rest))
            = Some (Inr (self\<lparr>arrays := (arrays self)(1 \<mapsto> ''A'')\<rparr>, rest))"
      by (simp add: global_record_A_def read_global_rec_A)
    show "steps (self\<lparr>arrays := (arrays self)(1 \<mapsto> ''A'')\<rparr>) rest []
            (self\<lparr>arrays := (arrays self)(1 \<mapsto> ''A'')\<rparr>) rest"
      by (rule steps_none)
  qed
  then show ?thesis by (simp add: global_record_A_def)
qed

text \<open>
  Claim C3, an instance: a Global record followed by the tag 99, and by the tag 0.
\<close>

theorem unknown_record_type_is_fatal_witness:
  "DebugFile_init (magic_and_versions @ global_record_A @ [CHR 0x63])
     = Some (Inl (UnknownRecordType 99))
   \<and> (\<exists>db. DebugFile_init (magic_and_versions @ global_record_A @ [CHR 0x00]) = Some (Inr db))"
proof
  from unknown_record_type_is_fatal
         [OF debug_header_example steps_global_record_A, of "CHR 0x63" "[]"]
  show "DebugFile_init (magic_and_versions @ global_record_A @ [CHR 0x63])
          = Some (Inl (UnknownRecordType 99))"
    by simp
  from unknown_record_type_is_fatal
         [OF debug_header_example steps_global_record_A, of "CHR 0x00" "[]"]
  show "\<exists>db. DebugFile_init (magic_and_versions @ global_record_A @ [CHR 0x00]) = Some (Inr db)"
    by simp
qed

text \<open>
  Claim C4 fails on the code. The file ends inside the name of a Global record:
  \<^verbatim>\<open>read_string\<close> reads \<^verbatim>\<open>''\<close> for ever and the constructor never returns, where the
  claim promises an error. A file that ends inside a fixed-width field does raise
  (\<^verbatim>\<open>struct.error\<close>).
\<close>

theorem truncated_string_never_returns:
  "DebugFile_init (magic_and_versions @ [CHR 0x04, CHR 0x01, CHR ''A'']) = None
   \<and> DebugFile_init (magic_and_versions @ [CHR 0x05, CHR 0x00]) = Some (Inl StructError)"
proof
  have "read_global_rec (DebugFile_new 1 2) [CHR 0x01, CHR ''A''] = None"
    by (simp add: read_global_rec_def eval_readers)
  then have "read_records (DebugFile_new 1 2) [CHR 0x04, CHR 0x01, CHR ''A''] = None"
    by (subst read_records.simps) (simp add: unpack_def rectable_def)
  then show "DebugFile_init (magic_and_versions @ [CHR 0x04, CHR 0x01, CHR ''A'']) = None"
    by (simp add: DebugFile_init_header [OF debug_header_example] bnd_def)
  have "read_attr_rec (DebugFile_new 1 2) [CHR 0x00] = Some (Inl StructError)"
    by (simp add: read_attr_rec_def eval_readers)
  then have "read_records (DebugFile_new 1 2) [CHR 0x05, CHR 0x00] = Some (Inl StructError)"
    by (subst read_records.simps) (simp add: unpack_def rectable_def)
  then show "DebugFile_init (magic_and_versions @ [CHR 0x05, CHR 0x00]) = Some (Inl StructError)"
    by (simp add: DebugFile_init_header [OF debug_header_example] bnd_def)
qed

text \<open>
  Claim C6 fails on the code. After decoding a file with one Global record (id 1, name
  \<^verbatim>\<open>A\<close>) the table \<^verbatim>\<open>globals\<close> is empty: \<^verbatim>\<open>read_global_rec\<close> stores the name in
  \<^verbatim>\<open>self.arrays\<close>.
\<close>

theorem global_record_stored_in_arrays:
  "case DebugFile_init (magic_and_versions @ global_record_A @ [CHR 0x00]) of
     Some (Inr db) \<Rightarrow> globals db 1 = None \<and> globals db = Map.empty \<and> arrays db 1 = Some ''A''
   | _ \<Rightarrow> False"
proof -
  have "read_records (DebugFile_new 1 2) (global_record_A @ [CHR 0x00])
          = read_records ((DebugFile_new 1 2)\<lparr>arrays := (arrays (DebugFile_new 1 2))(1 \<mapsto> ''A'')\<rparr>)
              [CHR 0x00]"
    by (rule read_records_steps [OF steps_global_record_A])
  also have "\<dots> = Some (Inr ((DebugFile_new 1 2)\<lparr>arrays := (arrays (DebugFile_new 1 2))(1 \<mapsto> ''A'')\<rparr>, []))"
    by (subst read_records.simps) (simp add: unpack_def)
  finally show ?thesis
    by (simp add: DebugFile_init_header [OF debug_header_example] bnd_def DebugFile_new_def)
qed

lemma fst_get_function_entry: "fst (get_function self n) = entry self n"
  by (simp add: entry_def fst_get_function)

lemma record_effect:
  assumes "rectable rectype = Some recfunc" and "recfunc self body = Some (Inr (self', fl'))"
  shows "(rectype \<noteq> 10 \<and> rectype \<noteq> 11 \<and> rectype \<noteq> 14 \<and> functions self' = functions self)
       \<or> (\<exists>n func. unpack 2 (take 2 body) = Inr n
             \<and> (\<forall>m. dict_get (functions self') m
                      = (if m = n then Some func else dict_get (functions self) m))
             \<and> (rectype = 10 \<and> (\<exists>pts. func = (entry self n)\<lparr>seqpts := Some pts\<rparr>)
                \<or> rectype = 14
                    \<and> (\<exists>pos a. func = (entry self n)\<lparr>endlinenum := Some pos, endaddr := Some a\<rparr>)
                \<or> rectype = 11
                    \<and> (\<exists>pos a nm ls fl1 fl2 fl3.
                          read_linenum (drop 2 body) = Some (Inr (pos, fl1))
                        \<and> read_addr fl1 = Some (Inr (a, fl2))
                        \<and> read_string fl2 = Some (Inr (nm, fl3))
                        \<and> func = (entry self n)
                             \<lparr>linenum := Some pos, addr := a, name := nm, locals := Some ls\<rparr>)))"
proof -
  consider "rectype = 10" | "rectype = 11" | "rectype = 14"
    | "rectype \<noteq> 10 \<and> rectype \<noteq> 11 \<and> rectype \<noteq> 14" by blast
  then show ?thesis
  proof cases
    case 1
    with function_recs(1) [OF assms(1)] assms(2)
    have "read_lineref_rec self body = Some (Inr (self', fl'))" by simp
    from read_lineref_rec_effect [OF this] 1 show ?thesis
      unfolding fst_get_function_entry by blast
  next
    case 2
    with function_recs(2) [OF assms(1)] assms(2)
    have "read_routine_rec self body = Some (Inr (self', fl'))" by simp
    from read_routine_rec_effect [OF this] 2 show ?thesis
      unfolding fst_get_function_entry by blast
  next
    case 3
    with function_recs(3) [OF assms(1)] assms(2)
    have "read_routine_end_rec self body = Some (Inr (self', fl'))" by simp
    from read_routine_end_rec_effect [OF this] 3 show ?thesis
      unfolding fst_get_function_entry by blast
  next
    case 4
    with other_recs_functions [OF assms(1) _ _ _ assms(2)] show ?thesis by simp
  qed
qed

lemma entry_fields:
  "dict_get (functions self) n = None \<Longrightarrow> entry self n = InformFunc_init n"
  "dict_get (functions self) n = Some func \<Longrightarrow> entry self n = func"
  by (simp_all add: entry_def)

lemma record_effect_at:
  assumes "rectable rectype = Some recfunc" and "recfunc self body = Some (Inr (self', fl'))"
  shows "(\<not> refers 10 n (rectype, body) \<and> \<not> refers 11 n (rectype, body)
            \<and> \<not> refers 14 n (rectype, body)
            \<and> dict_get (functions self') n = dict_get (functions self) n)
       \<or> (refers 10 n (rectype, body)
            \<and> (\<exists>pts. dict_get (functions self') n = Some ((entry self n)\<lparr>seqpts := Some pts\<rparr>)))
       \<or> (refers 14 n (rectype, body)
            \<and> (\<exists>pos a. dict_get (functions self') n
                   = Some ((entry self n)\<lparr>endlinenum := Some pos, endaddr := Some a\<rparr>)))
       \<or> (refers 11 n (rectype, body)
            \<and> (\<exists>pos a nm ls fl1 fl2 fl3.
                  read_linenum (drop 2 body) = Some (Inr (pos, fl1))
                \<and> read_addr fl1 = Some (Inr (a, fl2))
                \<and> read_string fl2 = Some (Inr (nm, fl3))
                \<and> dict_get (functions self') n
                    = Some ((entry self n)
                             \<lparr>linenum := Some pos, addr := a, name := nm, locals := Some ls\<rparr>)))"
proof -
  from record_effect [OF assms] show ?thesis
  proof (elim disjE conjE exE)
    assume "rectype \<noteq> 10" "rectype \<noteq> 11" "rectype \<noteq> 14" "functions self' = functions self"
    then show ?thesis by (simp add: refers_def)
  next
    fix k func pts
    assume u: "unpack 2 (take 2 body) = Inr k"
      and g: "\<forall>m. dict_get (functions self') m
                = (if m = k then Some func else dict_get (functions self) m)"
      and t: "rectype = 10" and f: "func = (entry self k)\<lparr>seqpts := Some pts\<rparr>"
    from g have gn: "dict_get (functions self') n
                = (if n = k then Some func else dict_get (functions self) n)" by simp
    show ?thesis
    proof (cases "k = n")
      case True
      with u t have "refers 10 n (rectype, body)" by (simp add: refers_def)
      moreover from True gn f
      have "dict_get (functions self') n = Some ((entry self n)\<lparr>seqpts := Some pts\<rparr>)" by simp
      ultimately show ?thesis by blast
    next
      case False
      with u gn t show ?thesis by (simp add: refers_def)
    qed
  next
    fix k func pos a
    assume u: "unpack 2 (take 2 body) = Inr k"
      and g: "\<forall>m. dict_get (functions self') m
                = (if m = k then Some func else dict_get (functions self) m)"
      and t: "rectype = 14"
      and f: "func = (entry self k)\<lparr>endlinenum := Some pos, endaddr := Some a\<rparr>"
    from g have gn: "dict_get (functions self') n
                = (if n = k then Some func else dict_get (functions self) n)" by simp
    show ?thesis
    proof (cases "k = n")
      case True
      with u t have "refers 14 n (rectype, body)" by (simp add: refers_def)
      moreover from True gn f
      have "dict_get (functions self') n
              = Some ((entry self n)\<lparr>endlinenum := Some pos, endaddr := Some a\<rparr>)" by simp
      ultimately show ?thesis by blast
    next
      case False
      with u gn t show ?thesis by (simp add: refers_def)
    qed
  next
    fix k func pos a nm ls fl1 fl2 fl3
    assume u: "unpack 2 (take 2 body) = Inr k"
      and g: "\<forall>m. dict_get (functions self') m
                = (if m = k then Some func else dict_get (functions self) m)"
      and t: "rectype = 11"
      and r: "read_linenum (drop 2 body) = Some (Inr (pos, fl1))"
        "read_addr fl1 = Some (Inr (a, fl2))" "read_string fl2 = Some (Inr (nm, fl3))"
      and f: "func = (entry self k)
                      \<lparr>linenum := Some pos, addr := a, name := nm, locals := Some ls\<rparr>"
    from g have gn: "dict_get (functions self') n
                = (if n = k then Some func else dict_get (functions self) n)" by simp
    show ?thesis
    proof (cases "k = n")
      case True
      with u t have "refers 11 n (rectype, body)" by (simp add: refers_def)
      moreover from True gn f
      have "dict_get (functions self') n
              = Some ((entry self n)
                        \<lparr>linenum := Some pos, addr := a, name := nm, locals := Some ls\<rparr>)" by simp
      ultimately show ?thesis using r by blast
    next
      case False
      with u gn t show ?thesis by (simp add: refers_def)
    qed
  qed
qed

lemma step_keeps_linenum_unset:
  assumes "rectable rectype = Some recfunc" and "recfunc self body = Some (Inr (self', fl'))"
    and "\<not> refers 11 n (rectype, body)"
    and "\<forall>func. dict_get (functions self) n = Some func \<longrightarrow> linenum func = None"
  shows "\<forall>func. dict_get (functions self') n = Some func \<longrightarrow> linenum func = None"
proof -
  have e: "linenum (entry self n) = None"
    using assms(4) by (cases "dict_get (functions self) n") (simp_all add: entry_def InformFunc_init_def)
  from record_effect_at [OF assms(1,2), of n] assms(3,4) e show ?thesis
    by (elim disjE conjE exE) simp_all
qed

lemma step_creates_only_by_reference:
  assumes "rectable rectype = Some recfunc" and "recfunc self body = Some (Inr (self', fl'))"
    and "dict_get (functions self') n = Some func"
  shows "dict_get (functions self) n \<noteq> None
       \<or> refers 10 n (rectype, body) \<or> refers 11 n (rectype, body) \<or> refers 14 n (rectype, body)"
  using record_effect_at [OF assms(1,2), of n] assms(3)
  by (elim disjE conjE exE) simp_all

lemma steps_keep_linenum_unset:
  "steps self fl recs self' fl' \<Longrightarrow>
   \<forall>rec \<in> set recs. \<not> refers 11 n rec \<Longrightarrow>
   \<forall>func. dict_get (functions self) n = Some func \<longrightarrow> linenum func = None \<Longrightarrow>
   \<forall>func. dict_get (functions self') n = Some func \<longrightarrow> linenum func = None"
proof (induction rule: steps.induct)
  case (steps_none self fl)
  then show ?case by simp
next
  case (steps_record fl rectype recfunc self self1 fl1 recs self' fl')
  from steps_record.prems(1) have a: "\<not> refers 11 n (rectype, drop 1 fl)"
    and b: "\<forall>rec \<in> set recs. \<not> refers 11 n rec" by simp_all
  from step_keeps_linenum_unset [OF steps_record.hyps(3,4) a steps_record.prems(2)]
  show ?case by (rule steps_record.IH [OF b])
qed

lemma steps_create_only_by_reference:
  "steps self fl recs self' fl' \<Longrightarrow> dict_get (functions self') n = Some func \<Longrightarrow>
   dict_get (functions self) n \<noteq> None
   \<or> (\<exists>rec \<in> set recs. refers 10 n rec \<or> refers 11 n rec \<or> refers 14 n rec)"
proof (induction rule: steps.induct)
  case (steps_none self fl)
  then show ?case by simp
next
  case (steps_record fl rectype recfunc self self1 fl1 recs self' fl')
  from steps_record.IH [OF steps_record.prems]
  show ?case
  proof
    assume "dict_get (functions self1) n \<noteq> None"
    then obtain f1 where "dict_get (functions self1) n = Some f1" by auto
    from step_creates_only_by_reference [OF steps_record.hyps(3,4) this]
    show ?thesis by auto
  next
    assume "\<exists>rec \<in> set recs. refers 10 n rec \<or> refers 11 n rec \<or> refers 14 n rec"
    then show ?thesis by auto
  qed
qed

lemma of_char_zero: "(of_char a :: int) = 0 \<Longrightarrow> a = CHR 0x00"
proof -
  assume "(of_char a :: int) = 0"
  then have "(of_char a :: int) = of_char (CHR 0x00)" by simp
  then show ?thesis by (simp only: of_char_eq_iff)
qed

lemma read_records_complete:
  assumes a: "read_records self fl = Some r"
  shows "\<forall>self' fl'. r = Inr (self', fl') \<longrightarrow>
           (\<exists>recs rest. steps self fl recs self' (CHR 0x00 # fl'))"
proof (rule read_records.raw_induct
    [where P = "\<lambda>self fl r. \<forall>self' fl'. r = Inr (self', fl') \<longrightarrow>
           (\<exists>recs rest. steps self fl recs self' (CHR 0x00 # fl'))", OF _ a])
  fix rr :: "DebugFile \<Rightarrow> string \<Rightarrow> (error + DebugFile \<times> string) option" and self fl r
  assume IH: "\<And>self fl r. rr self fl = Some r \<Longrightarrow>
                \<forall>self' fl'. r = Inr (self', fl') \<longrightarrow>
                   (\<exists>recs rest. steps self fl recs self' (CHR 0x00 # fl'))"
    and eq: "(case unpack 1 (take 1 fl) of
        Inl e \<Rightarrow> Some (Inl e)
      | Inr rectype \<Rightarrow>
          if rectype = 0 then Some (Inr (self, drop 1 fl))
          else (case rectable rectype of
                  None \<Rightarrow> Some (Inl (UnknownRecordType rectype))
                | Some recfunc \<Rightarrow>
                    (case recfunc self (drop 1 fl) of
                       None \<Rightarrow> None
                     | Some (Inl e) \<Rightarrow> Some (Inl e)
                     | Some (Inr (self', fl')) \<Rightarrow> rr self' fl'))) = Some r"
  show "\<forall>self' fl'. r = Inr (self', fl') \<longrightarrow>
           (\<exists>recs rest. steps self fl recs self' (CHR 0x00 # fl'))"
  proof (intro allI impI)
    fix self' fl' assume r: "r = Inr (self', fl')"
    from eq r obtain rectype where u: "unpack 1 (take 1 fl) = Inr rectype"
      by (auto split: sum.splits)
    show "\<exists>recs rest. steps self fl recs self' (CHR 0x00 # fl')"
    proof (cases "rectype = 0")
      case True
      with eq u r have s: "self' = self" "fl' = drop 1 fl" by simp_all
      from u True have "fl = CHR 0x00 # drop 1 fl"
        by (cases fl) (auto simp: unpack_def dest: of_char_zero split: if_splits)
      with s have "steps self fl [] self' (CHR 0x00 # fl')" using steps_none [of self fl] by simp
      then show ?thesis by blast
    next
      case False
      with eq u r obtain recfunc self1 fl1 where
        t: "rectable rectype = Some recfunc"
        and h: "recfunc self (drop 1 fl) = Some (Inr (self1, fl1))"
        and c: "rr self1 fl1 = Some (Inr (self', fl'))"
        by (auto split: option.splits sum.splits)
      from IH [OF c] obtain recs where "steps self1 fl1 recs self' (CHR 0x00 # fl')" by blast
      from steps_record [OF u False t h this] show ?thesis by blast
    qed
  qed
qed

lemma debug_sourcemap_unset:
  "\<exists>func \<in> set funcs. linenum func = None \<Longrightarrow> debug_sourcemap sm funcs = Inl TypeError"
proof (induction funcs arbitrary: sm)
  case Nil
  then show ?case by simp
next
  case (Cons f funcs)
  show ?case
  proof (cases "linenum f")
    case None
    then show ?thesis by simp
  next
    case (Some pos)
    with Cons.prems have "\<exists>func \<in> set funcs. linenum func = None" by auto
    from Cons.IH [OF this] Some show ?thesis by (cases pos) simp
  qed
qed

lemma sourcemap_of_debugfile_unset:
  assumes "dict_get (functions db) n = Some func" and "linenum func = None"
  shows "sourcemap_of_debugfile db = Inl TypeError"
proof -
  from assms(1) have "(n, func) \<in> set (functions db)"
    unfolding dict_get_def by (rule map_of_SomeD)
  then have "func \<in> set (dict_values (functions db))"
    by (simp add: set_dict_values image_iff rev_bexI)
  with assms(2) show ?thesis
    unfolding sourcemap_of_debugfile_def by (intro debug_sourcemap_unset) blast
qed

lemma DebugFile_new_functions: "dict_get (functions (DebugFile_new dv iv)) n = None"
  by (simp add: DebugFile_new_def dict_get_def)

lemma DebugFile_init_Inr:
  assumes "DebugFile_init fl = Some (Inr db)"
  shows "\<exists>dv iv body self rest. debug_header fl = Some (dv, iv, body)
           \<and> read_records (DebugFile_new dv iv) body = Some (Inr (self, rest))
           \<and> functions db = functions self"
proof -
  from assms obtain val fl1 where a: "read_uint 2 fl = Some (Inr (val, fl1))"
    and b: "(if val \<noteq> 0xDEBF then Some (Inl NotDebugFile)
             else bnd (read_uint 2 fl1) (\<lambda>(dv, fl).
                  bnd (read_uint 2 fl) (\<lambda>(iv, fl).
                  bnd (read_records (DebugFile_new dv iv) fl) (\<lambda>(self, fl).
                    Some (Inr (self\<lparr>function_names :=
                         fold (\<lambda>func names. names(InformFunc.name func \<mapsto> func))
                           (dict_values (functions self)) (function_names self)\<rparr>))))))
            = Some (Inr db)"
    unfolding DebugFile_init_def bnd_Inr [of "read_uint 2 fl"] by auto
  from b have v: "val = 0xDEBF" by (auto split: if_splits)
  with b obtain dv fl2 iv body self rest where
    c: "read_uint 2 fl1 = Some (Inr (dv, fl2))" "read_uint 2 fl2 = Some (Inr (iv, body))"
      "read_records (DebugFile_new dv iv) body = Some (Inr (self, rest))"
    and d: "db = self\<lparr>function_names :=
                         fold (\<lambda>func names. names(InformFunc.name func \<mapsto> func))
                           (dict_values (functions self)) (function_names self)\<rparr>"
    by (auto simp: bnd_Inr)
  from a v c have "debug_header fl = Some (dv, iv, body)" by (simp add: debug_header_def)
  with c(3) d show ?thesis by auto
qed

lemma steps_to_terminator:
  assumes "steps self0 body recs self (CHR 0x00 # rest)"
  shows "read_records self0 body = Some (Inr (self, rest))"
proof -
  have "read_records self (CHR 0x00 # rest) = Some (Inr (self, rest))"
    using read_records_zero [of "CHR 0x00 # rest" self] by (simp add: unpack_def)
  with read_records_steps [OF assms] show ?thesis by simp
qed

lemma DebugFile_init_steps:
  assumes "debug_header fl = Some (dv, iv, body)"
    and "steps (DebugFile_new dv iv) body recs self (CHR 0x00 # rest)"
  shows "\<exists>db. DebugFile_init fl = Some (Inr db) \<and> functions db = functions self"
  using steps_to_terminator [OF assms(2)]
  by (simp add: DebugFile_init_header [OF assms(1)] bnd_def)

lemma unset_entry_fails:
  assumes h: "debug_header fl = Some (dv, iv, body)"
    and s: "steps (DebugFile_new dv iv) body recs self (CHR 0x00 # rest)"
    and e: "dict_get (functions self) n = Some func"
    and r: "\<forall>rec \<in> set recs. \<not> refers 11 n rec"
  shows "\<exists>db'. DebugFile_init fl = Some (Inr db') \<and> functions db' = functions self
            \<and> linenum func = None
            \<and> (\<exists>rec \<in> set recs. refers 10 n rec \<or> refers 14 n rec)
            \<and> sourcemap_of_debugfile db' = Inl TypeError"
proof -
  from DebugFile_init_steps [OF h s] obtain db' where
    i: "DebugFile_init fl = Some (Inr db')" and f: "functions db' = functions self" by blast
  have n0: "\<forall>func. dict_get (functions (DebugFile_new dv iv)) n = Some func
              \<longrightarrow> linenum func = None"
    by (simp add: DebugFile_new_functions)
  from steps_keep_linenum_unset [OF s r n0] e have u: "linenum func = None" by simp
  from steps_create_only_by_reference [OF s e]
  have "\<exists>rec \<in> set recs. refers 10 n rec \<or> refers 11 n rec \<or> refers 14 n rec"
    by (simp add: DebugFile_new_functions)
  then obtain rec where "rec \<in> set recs" "refers 10 n rec \<or> refers 11 n rec \<or> refers 14 n rec"
    by blast
  with r have c: "\<exists>rec \<in> set recs. refers 10 n rec \<or> refers 14 n rec" by blast
  from e f have "dict_get (functions db') n = Some func" by simp
  from sourcemap_of_debugfile_unset [OF this u]
  have t: "sourcemap_of_debugfile db' = Inl TypeError" .
  show ?thesis
    by (rule exI [of _ db']) (simp only: i f u c t simp_thms)
qed

lemma read_records_steps_exist:
  assumes "read_records self fl = Some (Inr (self', fl'))"
  shows "\<exists>recs. steps self fl recs self' (CHR 0x00 # fl')"
proof -
  from read_records_complete [OF assms]
  have "Inr (self', fl') = (Inr (self', fl') :: error + DebugFile \<times> string)
          \<longrightarrow> (\<exists>recs rest :: string. steps self fl recs self' (CHR 0x00 # fl'))"
    by (elim allE)
  then show ?thesis by simp
qed

lemma sourcemap_requires_routines:
  assumes i: "DebugFile_init fl = Some (Inr db)" and m: "sourcemap_of_debugfile db = Inr sm"
  shows "\<exists>dv iv body recs self rest.
          debug_header fl = Some (dv, iv, body)
        \<and> steps (DebugFile_new dv iv) body recs self (CHR 0x00 # rest)
        \<and> functions db = functions self
        \<and> (\<forall>n func. dict_get (functions db) n = Some func
              \<longrightarrow> (\<exists>rec \<in> set recs. refers 11 n rec))"
proof -
  from DebugFile_init_Inr [OF i] obtain dv iv body self rest where
    h: "debug_header fl = Some (dv, iv, body)"
    and rr: "read_records (DebugFile_new dv iv) body = Some (Inr (self, rest))"
    and f: "functions db = functions self" by blast
  from read_records_steps_exist [OF rr] obtain recs where
    s: "steps (DebugFile_new dv iv) body recs self (CHR 0x00 # rest)" ..
  have a: "\<forall>n func. dict_get (functions db) n = Some func \<longrightarrow> (\<exists>rec \<in> set recs. refers 11 n rec)"
  proof (intro allI impI)
    fix n func assume e: "dict_get (functions db) n = Some func"
    show "\<exists>rec \<in> set recs. refers 11 n rec"
    proof (rule ccontr)
      assume "\<not> (\<exists>rec \<in> set recs. refers 11 n rec)"
      then have r: "\<forall>rec \<in> set recs. \<not> refers 11 n rec" by simp
      from e f have e': "dict_get (functions self) n = Some func" by simp
      have n0: "\<forall>func. dict_get (functions (DebugFile_new dv iv)) n = Some func
              \<longrightarrow> linenum func = None"
        by (simp add: DebugFile_new_functions)
      from steps_keep_linenum_unset [OF s r n0] e' have "linenum func = None" by simp
      from sourcemap_of_debugfile_unset [OF e this] m show False by simp
    qed
  qed
  show ?thesis
    by (rule exI [of _ dv], rule exI [of _ iv], rule exI [of _ body], rule exI [of _ recs],
        rule exI [of _ self], rule exI [of _ rest]) (use h s f a in simp)
qed

text \<open>
  Claim C10. If the records of a debug file are read up to the terminator and the function
  table holds an entry for an id that no Routine (11) record referred to, then the
  constructor returns an object, the entry has no definition position, a Line-reference or
  Routine-end record referred to the id, and building the map from the object raises
  \<^verbatim>\<open>TypeError\<close>. Conversely, when the constructor returns an object and the map is built,
  every entry of the function table was referred to by a Routine record.
\<close>

theorem sourcemap_needs_routine_records:
  "(debug_header fl = Some (dv, iv, body)
      \<and> steps (DebugFile_new dv iv) body recs self (CHR 0x00 # rest)
      \<and> dict_get (functions self) n = Some func
      \<and> (\<forall>rec \<in> set recs. \<not> refers 11 n rec)
    \<longrightarrow> (\<exists>db'. DebugFile_init fl = Some (Inr db') \<and> functions db' = functions self
            \<and> linenum func = None
            \<and> (\<exists>rec \<in> set recs. refers 10 n rec \<or> refers 14 n rec)
            \<and> sourcemap_of_debugfile db' = Inl TypeError))
   \<and> (DebugFile_init fl = Some (Inr db) \<and> sourcemap_of_debugfile db = Inr sm
    \<longrightarrow> (\<exists>dv iv body recs self rest.
          debug_header fl = Some (dv, iv, body)
        \<and> steps (DebugFile_new dv iv) body recs self (CHR 0x00 # rest)
        \<and> functions db = functions self
        \<and> (\<forall>n func. dict_get (functions db) n = Some func
              \<longrightarrow> (\<exists>rec \<in> set recs. refers 11 n rec))))"
proof (rule conjI)
  show "debug_header fl = Some (dv, iv, body)
      \<and> steps (DebugFile_new dv iv) body recs self (CHR 0x00 # rest)
      \<and> dict_get (functions self) n = Some func
      \<and> (\<forall>rec \<in> set recs. \<not> refers 11 n rec)
    \<longrightarrow> (\<exists>db'. DebugFile_init fl = Some (Inr db') \<and> functions db' = functions self
            \<and> linenum func = None
            \<and> (\<exists>rec \<in> set recs. refers 10 n rec \<or> refers 14 n rec)
            \<and> sourcemap_of_debugfile db' = Inl TypeError)"
  proof (rule impI, elim conjE)
    assume "debug_header fl = Some (dv, iv, body)"
      "steps (DebugFile_new dv iv) body recs self (CHR 0x00 # rest)"
      "dict_get (functions self) n = Some func" "\<forall>rec \<in> set recs. \<not> refers 11 n rec"
    then show "\<exists>db'. DebugFile_init fl = Some (Inr db') \<and> functions db' = functions self
            \<and> linenum func = None
            \<and> (\<exists>rec \<in> set recs. refers 10 n rec \<or> refers 14 n rec)
            \<and> sourcemap_of_debugfile db' = Inl TypeError"
      by (rule unset_entry_fails)
  qed
next
  show "DebugFile_init fl = Some (Inr db) \<and> sourcemap_of_debugfile db = Inr sm
    \<longrightarrow> (\<exists>dv iv body recs self rest.
          debug_header fl = Some (dv, iv, body)
        \<and> steps (DebugFile_new dv iv) body recs self (CHR 0x00 # rest)
        \<and> functions db = functions self
        \<and> (\<forall>n func. dict_get (functions db) n = Some func
              \<longrightarrow> (\<exists>rec \<in> set recs. refers 11 n rec)))"
  proof (rule impI, elim conjE)
    assume "DebugFile_init fl = Some (Inr db)" "sourcemap_of_debugfile db = Inr sm"
    then show "\<exists>dv iv body recs self rest.
          debug_header fl = Some (dv, iv, body)
        \<and> steps (DebugFile_new dv iv) body recs self (CHR 0x00 # rest)
        \<and> functions db = functions self
        \<and> (\<forall>n func. dict_get (functions db) n = Some func
              \<longrightarrow> (\<exists>rec \<in> set recs. refers 11 n rec))"
      by (rule sourcemap_requires_routines)
  qed
qed

lemma read_uint_bytes:
  "length dat = k \<Longrightarrow> read_uint k (dat @ fl) = Some (Inr (uint dat, fl))"
  by (simp add: read_uint_def unpack_def uint_def)

lemma read_linenum_bytes:
  assumes "length dat = 4"
  shows "read_linenum (dat @ fl) = Some (Inr (position dat, fl))"
proof -
  from assms obtain a b c d where "dat = [a, b, c, d]"
    by (auto simp: eval_nat_numeral length_Suc_conv)
  then show ?thesis by (simp add: read_linenum_def position_def uint_def)
qed

lemma read_addr_bytes:
  "length dat = 3 \<Longrightarrow> read_addr (dat @ fl) = Some (Inr (uint dat, fl))"
  by (simp add: read_addr_def unpack_def uint_def)

lemma read_string_bytes:
  assumes "CHR 0x00 \<notin> set s"
  shows "read_string (s @ CHR 0x00 # fl) = Some (Inr (s, fl))"
proof -
  from assms have "\<And>c. c \<in> set s \<Longrightarrow> c \<noteq> CHR 0x00" by blast
  then have "takeWhile (\<lambda>c. c \<noteq> CHR 0x00) (s @ CHR 0x00 # fl) = s"
    "dropWhile (\<lambda>c. c \<noteq> CHR 0x00) (s @ CHR 0x00 # fl) = CHR 0x00 # fl"
    by (simp_all add: takeWhile_append2 dropWhile_append2)
  then show ?thesis by (simp add: read_string_eq)
qed

lemma read_locals_bytes:
  "\<forall>l \<in> set ls. l \<noteq> [] \<and> CHR 0x00 \<notin> set l \<Longrightarrow>
   read_locals acc (cstrings ls @ CHR 0x00 # fl) = Some (Inr (acc @ ls, fl))"
proof (induction ls arbitrary: acc)
  case Nil
  have "read_string (CHR 0x00 # fl) = Some (Inr ([], fl))"
    using read_string_bytes [of "[]" fl] by simp
  then show ?case by (subst read_locals.simps) (simp add: cstrings_def)
next
  case (Cons l ls)
  then have l: "l \<noteq> []" "CHR 0x00 \<notin> set l"
    and r: "\<forall>l \<in> set ls. l \<noteq> [] \<and> CHR 0x00 \<notin> set l" by simp_all
  have "read_string (l @ CHR 0x00 # cstrings ls @ CHR 0x00 # fl)
          = Some (Inr (l, cstrings ls @ CHR 0x00 # fl))"
    using l(2) by (rule read_string_bytes)
  moreover have "cstrings (l # ls) @ CHR 0x00 # fl = l @ CHR 0x00 # cstrings ls @ CHR 0x00 # fl"
    by (simp add: cstrings_def)
  ultimately have "read_locals acc (cstrings (l # ls) @ CHR 0x00 # fl)
          = read_locals (acc @ [l]) (cstrings ls @ CHR 0x00 # fl)"
    using l(1) by (subst read_locals.simps) simp
  with Cons.IH [OF r, of "acc @ [l]"] show ?case by simp
qed

lemma read_seqpts_bytes:
  "\<forall>p \<in> set ps. length p = 6 \<Longrightarrow>
   read_seqpts (length ps) acc (concat ps @ fl) = Some (Inr (acc @ map seqpt ps, fl))"
proof (induction ps arbitrary: acc)
  case Nil
  then show ?case by simp
next
  case (Cons p ps)
  then have p: "length p = 6" and r: "\<forall>p \<in> set ps. length p = 6" by simp_all
  have s: "p @ concat ps @ fl = take 4 p @ drop 4 p @ concat ps @ fl" by simp
  have a: "read_linenum (p @ concat ps @ fl)
          = Some (Inr (position (take 4 p), drop 4 p @ concat ps @ fl))"
    using p by (subst s, intro read_linenum_bytes) simp
  have b: "read_uint 2 (drop 4 p @ concat ps @ fl) = Some (Inr (uint (drop 4 p), concat ps @ fl))"
    using p by (intro read_uint_bytes) simp
  have "read_seqpts (length (p # ps)) acc (concat (p # ps) @ fl)
          = read_seqpts (length ps) (acc @ [seqpt p]) (concat ps @ fl)"
    by (simp add: bnd_def seqpt_def a b)
  with Cons.IH [OF r, of "acc @ [seqpt p]"] show ?case by simp
qed

lemma get_function_present:
  "dict_get (functions self) n = Some func \<Longrightarrow> get_function self n = (func, self)"
  by (simp add: get_function_def)

lemma stored_entry:
  "dict_get (functions (put_function (snd (get_function self n)) n func)) m
     = (if m = n then Some func else dict_get (functions self) m)"
  by (simp add: put_function_entry get_function_entry)

lemma routine_record_read:
  assumes "length idb = 2" "length posb = 4" "length ab = 3" "CHR 0x00 \<notin> set nm"
    "\<forall>l \<in> set ls. l \<noteq> [] \<and> CHR 0x00 \<notin> set l"
  shows "\<exists>recfunc self'. rectable 11 = Some recfunc
     \<and> recfunc self (idb @ posb @ ab @ nm @ [CHR 0x00] @ cstrings ls @ [CHR 0x00] @ rest)
         = Some (Inr (self', rest))
     \<and> (\<forall>m. dict_get (functions self') m =
           (if m = uint idb
            then Some ((fst (get_function self (uint idb)))
                         \<lparr>linenum := Some (position posb), addr := uint ab, name := nm,
                          locals := Some ls\<rparr>)
            else dict_get (functions self) m))"
proof -
  let ?n = "uint idb"
  let ?func = "(fst (get_function self ?n))
                 \<lparr>linenum := Some (position posb), addr := uint ab, name := nm, locals := Some ls\<rparr>"
  let ?self' = "put_function (snd (get_function self ?n)) ?n ?func"
  have "read_routine_rec self (idb @ posb @ ab @ nm @ [CHR 0x00] @ cstrings ls @ [CHR 0x00] @ rest)
          = Some (Inr (?self', rest))"
    using assms
    by (simp add: read_routine_rec_def read_uint_bytes read_linenum_bytes read_addr_bytes
        read_string_bytes read_locals_bytes bnd_def case_prod_beta Let_def)
  moreover have "rectable 11 = Some read_routine_rec" by (simp add: rectable_def)
  moreover have "\<forall>m. dict_get (functions ?self') m
                   = (if m = ?n then Some ?func else dict_get (functions self) m)"
    by (simp only: stored_entry) simp
  ultimately show ?thesis by blast
qed

lemma lineref_record_read:
  assumes "length idb = 2" "length cntb = 2" "uint cntb = int (length ps)"
    "\<forall>p \<in> set ps. length p = 6"
  shows "\<exists>recfunc self'. rectable 10 = Some recfunc
     \<and> recfunc self (idb @ cntb @ concat ps @ rest) = Some (Inr (self', rest))
     \<and> (\<forall>m. dict_get (functions self') m =
           (if m = uint idb
            then Some ((fst (get_function self (uint idb)))
                         \<lparr>seqpts := Some (points (fst (get_function self (uint idb)))
                                            @ map seqpt ps)\<rparr>)
            else dict_get (functions self) m))"
proof -
  let ?n = "uint idb"
  let ?func = "(fst (get_function self ?n))
                 \<lparr>seqpts := Some (points (fst (get_function self ?n)) @ map seqpt ps)\<rparr>"
  let ?self' = "put_function (snd (get_function self ?n)) ?n ?func"
  have "read_lineref_rec self (idb @ cntb @ concat ps @ rest) = Some (Inr (?self', rest))"
    using assms
    by (simp add: read_lineref_rec_def read_uint_bytes read_seqpts_bytes bnd_def case_prod_beta
        Let_def points_def)
  moreover have "rectable 10 = Some read_lineref_rec" by (simp add: rectable_def)
  moreover have "\<forall>m. dict_get (functions ?self') m
                   = (if m = ?n then Some ?func else dict_get (functions self) m)"
    by (simp only: stored_entry) simp
  ultimately show ?thesis by blast
qed

lemma routine_end_record_read:
  assumes "length idb = 2" "length posb = 4" "length ab = 3"
  shows "\<exists>recfunc self'. rectable 14 = Some recfunc
     \<and> recfunc self (idb @ posb @ ab @ rest) = Some (Inr (self', rest))
     \<and> (\<forall>m. dict_get (functions self') m =
           (if m = uint idb
            then Some ((fst (get_function self (uint idb)))
                         \<lparr>endlinenum := Some (position posb), endaddr := Some (uint ab)\<rparr>)
            else dict_get (functions self) m))"
proof -
  let ?n = "uint idb"
  let ?func = "(fst (get_function self ?n))
                 \<lparr>endlinenum := Some (position posb), endaddr := Some (uint ab)\<rparr>"
  let ?self' = "put_function (snd (get_function self ?n)) ?n ?func"
  have "read_routine_end_rec self (idb @ posb @ ab @ rest) = Some (Inr (?self', rest))"
    using assms
    by (simp add: read_routine_end_rec_def read_uint_bytes read_linenum_bytes read_addr_bytes
        bnd_def case_prod_beta Let_def)
  moreover have "rectable 14 = Some read_routine_end_rec" by (simp add: rectable_def)
  moreover have "\<forall>m. dict_get (functions ?self') m
                   = (if m = ?n then Some ?func else dict_get (functions self) m)"
    by (simp only: stored_entry) simp
  ultimately show ?thesis by blast
qed

lemma step_keeps:
  assumes t: "rectable rectype = Some recfunc" and h: "recfunc self body = Some (Inr (self', fl'))"
    and i: "Q (InformFunc_init n)"
    and p: "\<forall>func. dict_get (functions self) n = Some func \<longrightarrow> Q func"
    and k10: "refers 10 n (rectype, body) \<longrightarrow> (\<forall>f pts. Q f \<longrightarrow> Q (f\<lparr>seqpts := Some pts\<rparr>))"
    and k11: "refers 11 n (rectype, body) \<longrightarrow>
                (\<forall>f pos a nm ls. Q f \<longrightarrow>
                   Q (f\<lparr>linenum := Some pos, addr := a, name := nm, locals := Some ls\<rparr>))"
    and k14: "refers 14 n (rectype, body) \<longrightarrow>
                (\<forall>f pos a. Q f \<longrightarrow> Q (f\<lparr>endlinenum := Some pos, endaddr := Some a\<rparr>))"
  shows "\<forall>func. dict_get (functions self') n = Some func \<longrightarrow> Q func"
proof -
  have e: "Q (entry self n)"
    using i p by (cases "dict_get (functions self) n") (simp_all add: entry_def)
  from record_effect_at [OF t h, of n] show ?thesis
  proof (elim disjE conjE exE)
    assume "dict_get (functions self') n = dict_get (functions self) n"
    with p show ?thesis by simp
  next
    fix pts
    assume r: "refers 10 n (rectype, body)"
      and d: "dict_get (functions self') n = Some ((entry self n)\<lparr>seqpts := Some pts\<rparr>)"
    from k10 r e have "Q ((entry self n)\<lparr>seqpts := Some pts\<rparr>)" by blast
    with d show ?thesis by simp
  next
    fix pos a
    assume r: "refers 14 n (rectype, body)"
      and d: "dict_get (functions self') n
         = Some ((entry self n)\<lparr>endlinenum := Some pos, endaddr := Some a\<rparr>)"
    from k14 r e have "Q ((entry self n)\<lparr>endlinenum := Some pos, endaddr := Some a\<rparr>)"
      by blast
    with d show ?thesis by simp
  next
    fix pos a nm ls fl1 fl2 fl3
    assume r: "refers 11 n (rectype, body)"
      and d: "dict_get (functions self') n
         = Some ((entry self n)\<lparr>linenum := Some pos, addr := a, name := nm, locals := Some ls\<rparr>)"
    from k11 r e
    have "Q ((entry self n)\<lparr>linenum := Some pos, addr := a, name := nm, locals := Some ls\<rparr>)"
      by blast
    with d show ?thesis by simp
  qed
qed

lemma steps_keep:
  "steps self fl recs self' fl' \<Longrightarrow> Q (InformFunc_init n) \<Longrightarrow>
   \<forall>func. dict_get (functions self) n = Some func \<longrightarrow> Q func \<Longrightarrow>
   (\<exists>rec \<in> set recs. refers 10 n rec) \<longrightarrow> (\<forall>f pts. Q f \<longrightarrow> Q (f\<lparr>seqpts := Some pts\<rparr>)) \<Longrightarrow>
   (\<exists>rec \<in> set recs. refers 11 n rec) \<longrightarrow>
      (\<forall>f pos a nm ls. Q f \<longrightarrow>
         Q (f\<lparr>linenum := Some pos, addr := a, name := nm, locals := Some ls\<rparr>)) \<Longrightarrow>
   (\<exists>rec \<in> set recs. refers 14 n rec) \<longrightarrow>
      (\<forall>f pos a. Q f \<longrightarrow> Q (f\<lparr>endlinenum := Some pos, endaddr := Some a\<rparr>)) \<Longrightarrow>
   \<forall>func. dict_get (functions self') n = Some func \<longrightarrow> Q func"
proof (induction rule: steps.induct)
  case (steps_none self fl)
  then show ?case by simp
next
  case (steps_record fl rectype recfunc self self1 fl1 recs self' fl')
  have "\<forall>func. dict_get (functions self1) n = Some func \<longrightarrow> Q func"
  proof (rule step_keeps [OF steps_record.hyps(3,4) steps_record.prems(1,2)])
    show "refers 10 n (rectype, drop 1 fl) \<longrightarrow> (\<forall>f pts. Q f \<longrightarrow> Q (f\<lparr>seqpts := Some pts\<rparr>))"
      using steps_record.prems(3) by simp
    show "refers 11 n (rectype, drop 1 fl) \<longrightarrow>
            (\<forall>f pos a nm ls. Q f \<longrightarrow>
               Q (f\<lparr>linenum := Some pos, addr := a, name := nm, locals := Some ls\<rparr>))"
      using steps_record.prems(4) by simp
    show "refers 14 n (rectype, drop 1 fl) \<longrightarrow>
            (\<forall>f pos a. Q f \<longrightarrow> Q (f\<lparr>endlinenum := Some pos, endaddr := Some a\<rparr>))"
      using steps_record.prems(5) by simp
  qed
  then show ?case
  proof (rule steps_record.IH [OF steps_record.prems(1)])
    show "(\<exists>rec \<in> set recs. refers 10 n rec) \<longrightarrow> (\<forall>f pts. Q f \<longrightarrow> Q (f\<lparr>seqpts := Some pts\<rparr>))"
      using steps_record.prems(3) by simp
    show "(\<exists>rec \<in> set recs. refers 11 n rec) \<longrightarrow>
            (\<forall>f pos a nm ls. Q f \<longrightarrow>
               Q (f\<lparr>linenum := Some pos, addr := a, name := nm, locals := Some ls\<rparr>))"
      using steps_record.prems(4) by simp
    show "(\<exists>rec \<in> set recs. refers 14 n rec) \<longrightarrow>
            (\<forall>f pos a. Q f \<longrightarrow> Q (f\<lparr>endlinenum := Some pos, endaddr := Some a\<rparr>))"
      using steps_record.prems(5) by simp
  qed
qed

lemma step_keeps_entry:
  assumes "rectable rectype = Some recfunc" and "recfunc self body = Some (Inr (self', fl'))"
    and "dict_get (functions self) n \<noteq> None
         \<or> refers 10 n (rectype, body) \<or> refers 11 n (rectype, body) \<or> refers 14 n (rectype, body)"
  shows "dict_get (functions self') n \<noteq> None"
  using record_effect_at [OF assms(1,2), of n] assms(3)
  by (elim disjE conjE exE) simp_all

lemma steps_keep_entry:
  "steps self fl recs self' fl' \<Longrightarrow>
   dict_get (functions self) n \<noteq> None
   \<or> (\<exists>rec \<in> set recs. refers 10 n rec \<or> refers 11 n rec \<or> refers 14 n rec) \<Longrightarrow>
   dict_get (functions self') n \<noteq> None"
proof (induction rule: steps.induct)
  case (steps_none self fl)
  then show ?case by simp
next
  case (steps_record fl rectype recfunc self self1 fl1 recs self' fl')
  from steps_record.prems
  consider "dict_get (functions self) n \<noteq> None
         \<or> refers 10 n (rectype, drop 1 fl) \<or> refers 11 n (rectype, drop 1 fl)
         \<or> refers 14 n (rectype, drop 1 fl)"
    | "\<exists>rec \<in> set recs. refers 10 n rec \<or> refers 11 n rec \<or> refers 14 n rec"
    by auto
  then show ?case
  proof cases
    case 1
    from step_keeps_entry [OF steps_record.hyps(3,4) 1]
    show ?thesis by (intro steps_record.IH) simp
  next
    case 2
    then show ?thesis by (intro steps_record.IH) simp
  qed
qed

lemma decoded_entry:
  assumes s: "steps (DebugFile_new dv iv) fl recs db rest"
  shows "(dict_get (functions db) n \<noteq> None)
            = (\<exists>rec \<in> set recs. refers 10 n rec \<or> refers 11 n rec \<or> refers 14 n rec)"
    and "dict_get (functions db) n = Some f \<Longrightarrow> funcnum f = n"
    and "dict_get (functions db) n = Some f \<Longrightarrow> \<forall>rec \<in> set recs. \<not> refers 11 n rec \<Longrightarrow>
         name f = ''<???>'' \<and> addr f = 0 \<and> linenum f = None \<and> locals f = None"
    and "dict_get (functions db) n = Some f \<Longrightarrow> \<forall>rec \<in> set recs. \<not> refers 14 n rec \<Longrightarrow>
         endaddr f = None \<and> endlinenum f = None"
    and "dict_get (functions db) n = Some f \<Longrightarrow> \<forall>rec \<in> set recs. \<not> refers 10 n rec \<Longrightarrow>
         seqpts f = None"
proof -
  have n0: "\<And>Q. \<forall>func. dict_get (functions (DebugFile_new dv iv)) n = Some func \<longrightarrow> Q func"
    by (simp add: DebugFile_new_functions)
  show "(dict_get (functions db) n \<noteq> None)
            = (\<exists>rec \<in> set recs. refers 10 n rec \<or> refers 11 n rec \<or> refers 14 n rec)"
  proof
    assume "dict_get (functions db) n \<noteq> None"
    then obtain g where "dict_get (functions db) n = Some g" by auto
    from steps_create_only_by_reference [OF s this]
    show "\<exists>rec \<in> set recs. refers 10 n rec \<or> refers 11 n rec \<or> refers 14 n rec"
      by (simp add: DebugFile_new_functions)
  next
    assume "\<exists>rec \<in> set recs. refers 10 n rec \<or> refers 11 n rec \<or> refers 14 n rec"
    then show "dict_get (functions db) n \<noteq> None"
      by (intro steps_keep_entry [OF s]) simp
  qed
  {
    assume e: "dict_get (functions db) n = Some f"
    have "\<forall>func. dict_get (functions db) n = Some func \<longrightarrow> funcnum func = n"
      by (rule steps_keep [OF s]) (simp_all add: InformFunc_init_def DebugFile_new_functions)
    with e show "funcnum f = n" by simp
  }
  {
    assume e: "dict_get (functions db) n = Some f" and r: "\<forall>rec \<in> set recs. \<not> refers 11 n rec"
    have "\<forall>func. dict_get (functions db) n = Some func \<longrightarrow>
            name func = ''<???>'' \<and> addr func = 0 \<and> linenum func = None \<and> locals func = None"
      by (rule steps_keep [OF s])
         (use r in \<open>simp_all add: InformFunc_init_def DebugFile_new_functions\<close>)
    with e show "name f = ''<???>'' \<and> addr f = 0 \<and> linenum f = None \<and> locals f = None"
      by simp
  }
  {
    assume e: "dict_get (functions db) n = Some f" and r: "\<forall>rec \<in> set recs. \<not> refers 14 n rec"
    have "\<forall>func. dict_get (functions db) n = Some func \<longrightarrow>
            endaddr func = None \<and> endlinenum func = None"
      by (rule steps_keep [OF s])
         (use r in \<open>simp_all add: InformFunc_init_def DebugFile_new_functions\<close>)
    with e show "endaddr f = None \<and> endlinenum f = None" by simp
  }
  {
    assume e: "dict_get (functions db) n = Some f" and r: "\<forall>rec \<in> set recs. \<not> refers 10 n rec"
    have "\<forall>func. dict_get (functions db) n = Some func \<longrightarrow> seqpts func = None"
      by (rule steps_keep [OF s])
         (use r in \<open>simp_all add: InformFunc_init_def DebugFile_new_functions\<close>)
    with e show "seqpts f = None" by simp
  }
qed

lemma function_record_effect:
  assumes t: "rectable rectype = Some recfunc"
    and h: "recfunc self body = Some (Inr (self', fl'))"
    and u: "unpack 2 (take 2 body) = Inr n" and k: "rectype \<in> {10, 11, 14}"
  shows "\<exists>func. dict_get (functions self') n = Some func
        \<and> (rectype = 10 \<longrightarrow> (\<exists>pts. func = (fst (get_function self n))\<lparr>seqpts := Some pts\<rparr>))
        \<and> (rectype = 14 \<longrightarrow>
              (\<exists>pos a. func = (fst (get_function self n))
                                 \<lparr>endlinenum := Some pos, endaddr := Some a\<rparr>))
        \<and> (rectype = 11 \<longrightarrow>
              (\<exists>pos a nm ls fl1 fl2 fl3.
                  read_linenum (drop 2 body) = Some (Inr (pos, fl1))
                \<and> read_addr fl1 = Some (Inr (a, fl2))
                \<and> read_string fl2 = Some (Inr (nm, fl3))
                \<and> func = (fst (get_function self n))
                           \<lparr>linenum := Some pos, addr := a, name := nm, locals := Some ls\<rparr>))"
proof -
  from u have r: "refers rectype n (rectype, body)" by (simp add: refers_def)
  from k consider "rectype = 10" | "rectype = 11" | "rectype = 14" by auto
  then show ?thesis
  proof cases
    case 1
    with r record_effect_at [OF t h, of n] obtain pts where
      "dict_get (functions self') n = Some ((entry self n)\<lparr>seqpts := Some pts\<rparr>)"
      by (auto simp: refers_def)
    moreover from 1 have "rectype \<noteq> 11" "rectype \<noteq> 14" by simp_all
    ultimately show ?thesis unfolding fst_get_function_entry by blast
  next
    case 2
    with r record_effect_at [OF t h, of n] obtain pos a nm ls fl1 fl2 fl3 where
      "read_linenum (drop 2 body) = Some (Inr (pos, fl1))"
      "read_addr fl1 = Some (Inr (a, fl2))" "read_string fl2 = Some (Inr (nm, fl3))"
      "dict_get (functions self') n
         = Some ((entry self n)\<lparr>linenum := Some pos, addr := a, name := nm, locals := Some ls\<rparr>)"
      by (auto simp: refers_def)
    moreover from 2 have "rectype \<noteq> 10" "rectype \<noteq> 14" by simp_all
    ultimately show ?thesis unfolding fst_get_function_entry by blast
  next
    case 3
    with r record_effect_at [OF t h, of n] obtain pos a where
      "dict_get (functions self') n
         = Some ((entry self n)\<lparr>endlinenum := Some pos, endaddr := Some a\<rparr>)"
      by (auto simp: refers_def)
    moreover from 3 have "rectype \<noteq> 10" "rectype \<noteq> 11" by simp_all
    ultimately show ?thesis unfolding fst_get_function_entry by blast
  qed
qed

text \<open>
  Claim C5. \<^verbatim>\<open>get_function\<close> on an id without entry creates the default entry (name
  \<^verbatim>\<open><???>\<close>, address 0, positions, locals and sequence points unset) and stores it; on an
  id with an entry it returns that entry and leaves the state as it is.

  In any state, so in whatever order the records come, a well-formed record is read to its
  end and leaves the entry that \<^verbatim>\<open>get_function\<close> returned with only the fields of its
  kind assigned, the entries of the other ids unchanged: a Routine (11) record (id,
  position, three address bytes, name and locals as zero-terminated strings, closed by an
  empty string) assigns the definition position, the address and the name, together, and
  the locals; a Line-reference (10) record (id, count, and that many sequence points of six
  bytes) appends its points to those of the entry; a Routine-end (14) record (id, position,
  three address bytes) assigns the end position and the end address. The same holds of any
  such record that is read successfully.

  After any records read from the initial state, an id has an entry exactly when a record
  of kind 10, 11 or 14 referred to it; the entry carries that id; without Routine record
  for the id its name, address, definition position and locals are the default ones;
  without Routine-end record its end fields are unset; without Line-reference record it has
  no sequence points.
\<close>

theorem function_entry_created_on_first_reference:
  "(dict_get (functions self) n = None \<longrightarrow>
      fst (get_function self n)
        = \<lparr>funcnum = n, name = ''<???>'', addr = 0, linenum = None, endaddr = None,
           endlinenum = None, locals = None, seqpts = None\<rparr>
      \<and> dict_get (functions (snd (get_function self n))) n = Some (fst (get_function self n)))
   \<and> (dict_get (functions self) n = Some func \<longrightarrow> get_function self n = (func, self))
   \<and> (length idb = 2 \<and> length posb = 4 \<and> length ab = 3 \<and> CHR 0x00 \<notin> set nm
        \<and> (\<forall>l \<in> set ls. l \<noteq> [] \<and> CHR 0x00 \<notin> set l) \<longrightarrow>
        (\<exists>recfunc self'. rectable 11 = Some recfunc
          \<and> recfunc self (idb @ posb @ ab @ nm @ [CHR 0x00] @ cstrings ls @ [CHR 0x00] @ rest)
              = Some (Inr (self', rest))
          \<and> (\<forall>m. dict_get (functions self') m =
                (if m = uint idb
                 then Some ((fst (get_function self (uint idb)))
                              \<lparr>linenum := Some (position posb), addr := uint ab, name := nm,
                               locals := Some ls\<rparr>)
                 else dict_get (functions self) m))))
   \<and> (length idb = 2 \<and> length cntb = 2 \<and> uint cntb = int (length ps)
        \<and> (\<forall>p \<in> set ps. length p = 6) \<longrightarrow>
        (\<exists>recfunc self'. rectable 10 = Some recfunc
          \<and> recfunc self (idb @ cntb @ concat ps @ rest) = Some (Inr (self', rest))
          \<and> (\<forall>m. dict_get (functions self') m =
                (if m = uint idb
                 then Some ((fst (get_function self (uint idb)))
                              \<lparr>seqpts := Some (points (fst (get_function self (uint idb)))
                                                 @ map seqpt ps)\<rparr>)
                 else dict_get (functions self) m))))
   \<and> (length idb = 2 \<and> length posb = 4 \<and> length ab = 3 \<longrightarrow>
        (\<exists>recfunc self'. rectable 14 = Some recfunc
          \<and> recfunc self (idb @ posb @ ab @ rest) = Some (Inr (self', rest))
          \<and> (\<forall>m. dict_get (functions self') m =
                (if m = uint idb
                 then Some ((fst (get_function self (uint idb)))
                              \<lparr>endlinenum := Some (position posb), endaddr := Some (uint ab)\<rparr>)
                 else dict_get (functions self) m))))
   \<and> (rectable rectype = Some recfunc \<and> recfunc self body = Some (Inr (self', fl'))
        \<and> unpack 2 (take 2 body) = Inr n \<and> rectype \<in> {10, 11, 14} \<longrightarrow>
        (\<exists>func. dict_get (functions self') n = Some func
          \<and> (rectype = 10 \<longrightarrow> (\<exists>pts. func = (fst (get_function self n))\<lparr>seqpts := Some pts\<rparr>))
          \<and> (rectype = 14 \<longrightarrow>
                (\<exists>pos a. func = (fst (get_function self n))
                                   \<lparr>endlinenum := Some pos, endaddr := Some a\<rparr>))
          \<and> (rectype = 11 \<longrightarrow>
                (\<exists>pos a nm ls fl1 fl2 fl3.
                    read_linenum (drop 2 body) = Some (Inr (pos, fl1))
                  \<and> read_addr fl1 = Some (Inr (a, fl2))
                  \<and> read_string fl2 = Some (Inr (nm, fl3))
                  \<and> func = (fst (get_function self n))
                             \<lparr>linenum := Some pos, addr := a, name := nm, locals := Some ls\<rparr>))))
   \<and> (steps (DebugFile_new dv iv) fl recs db fl'' \<longrightarrow>
        ((dict_get (functions db) n \<noteq> None)
            = (\<exists>rec \<in> set recs. refers 10 n rec \<or> refers 11 n rec \<or> refers 14 n rec))
        \<and> (dict_get (functions db) n = Some f \<longrightarrow>
             funcnum f = n
           \<and> ((\<forall>rec \<in> set recs. \<not> refers 11 n rec) \<longrightarrow>
                 name f = ''<???>'' \<and> addr f = 0 \<and> linenum f = None \<and> locals f = None)
           \<and> ((\<forall>rec \<in> set recs. \<not> refers 14 n rec) \<longrightarrow>
                 endaddr f = None \<and> endlinenum f = None)
           \<and> ((\<forall>rec \<in> set recs. \<not> refers 10 n rec) \<longrightarrow> seqpts f = None)))"
proof (intro conjI)
  show "dict_get (functions self) n = None \<longrightarrow>
      fst (get_function self n)
        = \<lparr>funcnum = n, name = ''<???>'', addr = 0, linenum = None, endaddr = None,
           endlinenum = None, locals = None, seqpts = None\<rparr>
      \<and> dict_get (functions (snd (get_function self n))) n = Some (fst (get_function self n))"
    by (simp add: fst_get_function get_function_entry InformFunc_init_def)
next
  show "dict_get (functions self) n = Some func \<longrightarrow> get_function self n = (func, self)"
    by (simp add: get_function_present)
next
  show "length idb = 2 \<and> length posb = 4 \<and> length ab = 3 \<and> CHR 0x00 \<notin> set nm
        \<and> (\<forall>l \<in> set ls. l \<noteq> [] \<and> CHR 0x00 \<notin> set l) \<longrightarrow>
        (\<exists>recfunc self'. rectable 11 = Some recfunc
          \<and> recfunc self (idb @ posb @ ab @ nm @ [CHR 0x00] @ cstrings ls @ [CHR 0x00] @ rest)
              = Some (Inr (self', rest))
          \<and> (\<forall>m. dict_get (functions self') m =
                (if m = uint idb
                 then Some ((fst (get_function self (uint idb)))
                              \<lparr>linenum := Some (position posb), addr := uint ab, name := nm,
                               locals := Some ls\<rparr>)
                 else dict_get (functions self) m)))"
    by (intro impI, elim conjE) (rule routine_record_read)
next
  show "length idb = 2 \<and> length cntb = 2 \<and> uint cntb = int (length ps)
        \<and> (\<forall>p \<in> set ps. length p = 6) \<longrightarrow>
        (\<exists>recfunc self'. rectable 10 = Some recfunc
          \<and> recfunc self (idb @ cntb @ concat ps @ rest) = Some (Inr (self', rest))
          \<and> (\<forall>m. dict_get (functions self') m =
                (if m = uint idb
                 then Some ((fst (get_function self (uint idb)))
                              \<lparr>seqpts := Some (points (fst (get_function self (uint idb)))
                                                 @ map seqpt ps)\<rparr>)
                 else dict_get (functions self) m)))"
    by (intro impI, elim conjE) (rule lineref_record_read)
next
  show "length idb = 2 \<and> length posb = 4 \<and> length ab = 3 \<longrightarrow>
        (\<exists>recfunc self'. rectable 14 = Some recfunc
          \<and> recfunc self (idb @ posb @ ab @ rest) = Some (Inr (self', rest))
          \<and> (\<forall>m. dict_get (functions self') m =
                (if m = uint idb
                 then Some ((fst (get_function self (uint idb)))
                              \<lparr>endlinenum := Some (position posb), endaddr := Some (uint ab)\<rparr>)
                 else dict_get (functions self) m)))"
    by (intro impI, elim conjE) (rule routine_end_record_read)
next
  show "rectable rectype = Some recfunc \<and> recfunc self body = Some (Inr (self', fl'))
        \<and> unpack 2 (take 2 body) = Inr n \<and> rectype \<in> {10, 11, 14} \<longrightarrow>
        (\<exists>func. dict_get (functions self') n = Some func
          \<and> (rectype = 10 \<longrightarrow> (\<exists>pts. func = (fst (get_function self n))\<lparr>seqpts := Some pts\<rparr>))
          \<and> (rectype = 14 \<longrightarrow>
                (\<exists>pos a. func = (fst (get_function self n))
                                   \<lparr>endlinenum := Some pos, endaddr := Some a\<rparr>))
          \<and> (rectype = 11 \<longrightarrow>
                (\<exists>pos a nm ls fl1 fl2 fl3.
                    read_linenum (drop 2 body) = Some (Inr (pos, fl1))
                  \<and> read_addr fl1 = Some (Inr (a, fl2))
                  \<and> read_string fl2 = Some (Inr (nm, fl3))
                  \<and> func = (fst (get_function self n))
                             \<lparr>linenum := Some pos, addr := a, name := nm, locals := Some ls\<rparr>)))"
    by (intro impI, elim conjE) (rule function_record_effect)
next
  show "steps (DebugFile_new dv iv) fl recs db fl'' \<longrightarrow>
        ((dict_get (functions db) n \<noteq> None)
            = (\<exists>rec \<in> set recs. refers 10 n rec \<or> refers 11 n rec \<or> refers 14 n rec))
        \<and> (dict_get (functions db) n = Some f \<longrightarrow>
             funcnum f = n
           \<and> ((\<forall>rec \<in> set recs. \<not> refers 11 n rec) \<longrightarrow>
                 name f = ''<???>'' \<and> addr f = 0 \<and> linenum f = None \<and> locals f = None)
           \<and> ((\<forall>rec \<in> set recs. \<not> refers 14 n rec) \<longrightarrow>
                 endaddr f = None \<and> endlinenum f = None)
           \<and> ((\<forall>rec \<in> set recs. \<not> refers 10 n rec) \<longrightarrow> seqpts f = None))"
  proof (rule impI)
    assume s: "steps (DebugFile_new dv iv) fl recs db fl''"
    have "dict_get (functions db) n = Some f \<longrightarrow>
             funcnum f = n
           \<and> ((\<forall>rec \<in> set recs. \<not> refers 11 n rec) \<longrightarrow>
                 name f = ''<???>'' \<and> addr f = 0 \<and> linenum f = None \<and> locals f = None)
           \<and> ((\<forall>rec \<in> set recs. \<not> refers 14 n rec) \<longrightarrow>
                 endaddr f = None \<and> endlinenum f = None)
           \<and> ((\<forall>rec \<in> set recs. \<not> refers 10 n rec) \<longrightarrow> seqpts f = None)"
      using decoded_entry(2-5) [OF s, of n f] by blast
    with decoded_entry(1) [OF s, of n]
    show "((dict_get (functions db) n \<noteq> None)
            = (\<exists>rec \<in> set recs. refers 10 n rec \<or> refers 11 n rec \<or> refers 14 n rec))
        \<and> (dict_get (functions db) n = Some f \<longrightarrow>
             funcnum f = n
           \<and> ((\<forall>rec \<in> set recs. \<not> refers 11 n rec) \<longrightarrow>
                 name f = ''<???>'' \<and> addr f = 0 \<and> linenum f = None \<and> locals f = None)
           \<and> ((\<forall>rec \<in> set recs. \<not> refers 14 n rec) \<longrightarrow>
                 endaddr f = None \<and> endlinenum f = None)
           \<and> ((\<forall>rec \<in> set recs. \<not> refers 10 n rec) \<longrightarrow> seqpts f = None))"
      by (rule conjI)
  qed
qed

lemmas eval_function_recs = get_function_def put_function_def dict_get_def dict_set_def
  DebugFile_new_def Let_def

lemma read_lineref_rec_5:
  "read_lineref_rec (DebugFile_new 1 2) (drop 1 lineref_record_5 @ rest)
     = Some (Inr (lineref_state, rest))"
  by (simp add: read_lineref_rec_def lineref_record_5_def lineref_state_def eval_readers
      eval_function_recs InformFunc_init_def)

lemma read_locals_x:
  "read_locals ls (CHR ''x'' # CHR 0x00 # CHR 0x00 # rest) = Some (Inr (ls @ [''x''], rest))"
proof -
  have "read_locals (ls @ [''x'']) (CHR 0x00 # rest) = Some (Inr (ls @ [''x''], rest))"
    by (subst read_locals.simps) (simp add: read_string_eq)
  then show ?thesis
    by (subst read_locals.simps) (simp add: read_string_eq)
qed

lemma read_routine_rec_5:
  "read_routine_rec (DebugFile_new 1 2) (drop 1 routine_record_5 @ rest)
     = Some (Inr (routine_state, rest))"
  by (simp add: read_routine_rec_def routine_record_5_def routine_state_def eval_readers
      eval_function_recs InformFunc_init_def read_locals_x)

lemma steps_lineref_record_5:
  "steps (DebugFile_new 1 2) (lineref_record_5 @ rest)
     [(10, drop 1 (lineref_record_5 @ rest))] lineref_state rest"
proof (rule steps_record [where recfunc = read_lineref_rec])
  show "unpack 1 (take 1 (lineref_record_5 @ rest)) = Inr 10"
    by (simp add: lineref_record_5_def unpack_def)
  show "(10::int) \<noteq> 0" by simp
  show "rectable 10 = Some read_lineref_rec" by (simp add: rectable_def)
  show "read_lineref_rec (DebugFile_new 1 2) (drop 1 (lineref_record_5 @ rest))
          = Some (Inr (lineref_state, rest))"
    using read_lineref_rec_5 [of rest] by (simp add: lineref_record_5_def)
  show "steps lineref_state rest [] lineref_state rest" by (rule steps_none)
qed

lemma steps_routine_record_5:
  "steps (DebugFile_new 1 2) (routine_record_5 @ rest)
     [(11, drop 1 (routine_record_5 @ rest))] routine_state rest"
proof (rule steps_record [where recfunc = read_routine_rec])
  show "unpack 1 (take 1 (routine_record_5 @ rest)) = Inr 11"
    by (simp add: routine_record_5_def unpack_def)
  show "(11::int) \<noteq> 0" by simp
  show "rectable 11 = Some read_routine_rec" by (simp add: rectable_def)
  show "read_routine_rec (DebugFile_new 1 2) (drop 1 (routine_record_5 @ rest))
          = Some (Inr (routine_state, rest))"
    using read_routine_rec_5 [of rest] by (simp add: routine_record_5_def)
  show "steps routine_state rest [] routine_state rest" by (rule steps_none)
qed

text \<open>
  Claim C5, instances for the id 5: the default entry; \<^verbatim>\<open>get_function\<close> on the entry
  that a Line-reference record has left; a Routine record read after a Line-reference
  record and a Line-reference record read after a Routine record, which give the same
  entry (name \<^verbatim>\<open>A\<close>, address 0x10, position (1, 7, 2), local \<^verbatim>\<open>x\<close>, one sequence
  point, end fields unset); a Routine-end record read in the initial state; a Routine
  record read in the initial state; and a file with a single Line-reference record, whose
  entry has the default name and address and no end fields.
\<close>

theorem function_entry_created_on_first_reference_witness:
  "fst (get_function (DebugFile_new 1 2) 5)
     = \<lparr>funcnum = 5, name = ''<???>'', addr = 0, linenum = None, endaddr = None,
        endlinenum = None, locals = None, seqpts = None\<rparr>
   \<and> get_function lineref_state 5
     = (\<lparr>funcnum = 5, name = ''<???>'', addr = 0, linenum = None, endaddr = None,
         endlinenum = None, locals = None, seqpts = Some [((1, 7, 2), 16)]\<rparr>, lineref_state)
   \<and> (\<exists>self'. read_routine_rec lineref_state (drop 1 routine_record_5) = Some (Inr (self', []))
        \<and> dict_get (functions self') 5
            = Some \<lparr>funcnum = 5, name = ''A'', addr = 16, linenum = Some (1, 7, 2), endaddr = None,
                endlinenum = None, locals = Some [''x''], seqpts = Some [((1, 7, 2), 16)]\<rparr>)
   \<and> (\<exists>self'. read_lineref_rec routine_state (drop 1 lineref_record_5) = Some (Inr (self', []))
        \<and> dict_get (functions self') 5
            = Some \<lparr>funcnum = 5, name = ''A'', addr = 16, linenum = Some (1, 7, 2), endaddr = None,
                endlinenum = None, locals = Some [''x''], seqpts = Some [((1, 7, 2), 16)]\<rparr>)
   \<and> (\<exists>self'. read_routine_end_rec (DebugFile_new 1 2) routine_end_body_5 = Some (Inr (self', []))
        \<and> dict_get (functions self') 5
            = Some \<lparr>funcnum = 5, name = ''<???>'', addr = 0, linenum = None, endaddr = Some 32,
                endlinenum = Some (1, 9, 2), locals = None, seqpts = None\<rparr>)
   \<and> (\<exists>func. read_routine_rec (DebugFile_new 1 2) (drop 1 routine_record_5)
                 = Some (Inr (routine_state, []))
        \<and> dict_get (functions routine_state) 5 = Some func
        \<and> name func = ''A'' \<and> addr func = 16 \<and> linenum func = Some (1, 7, 2)
        \<and> endaddr func = None \<and> endlinenum func = None \<and> seqpts func = None)
   \<and> (\<exists>f. steps (DebugFile_new 1 2) lineref_record_5 [(10, drop 1 lineref_record_5)]
            lineref_state []
      \<and> dict_get (functions lineref_state) 5 = Some f
      \<and> funcnum f = 5 \<and> name f = ''<???>'' \<and> addr f = 0 \<and> linenum f = None \<and> locals f = None
      \<and> endaddr f = None \<and> endlinenum f = None)"
proof (intro conjI)
  note t = function_entry_created_on_first_reference
  let ?idb = "[CHR 0x00, CHR 0x05]"
  let ?posb = "[CHR 0x01, CHR 0x00, CHR 0x07, CHR 0x02]"
  let ?ab = "[CHR 0x00, CHR 0x00, CHR 0x10]"
  let ?endposb = "[CHR 0x01, CHR 0x00, CHR 0x09, CHR 0x02]"
  let ?endab = "[CHR 0x00, CHR 0x00, CHR 0x20]"
  let ?cntb = "[CHR 0x00, CHR 0x01]"
  let ?ps = "[[CHR 0x01, CHR 0x00, CHR 0x07, CHR 0x02, CHR 0x00, CHR 0x10]]"
  have u: "uint ?idb = 5" by (simp add: uint_def)
  have fresh: "dict_get (functions (DebugFile_new 1 2)) 5 = None"
    by (rule DebugFile_new_functions)
  from t [where self = "DebugFile_new 1 2" and n = 5, THEN conjunct1] fresh
  show d: "fst (get_function (DebugFile_new 1 2) 5)
     = \<lparr>funcnum = 5, name = ''<???>'', addr = 0, linenum = None, endaddr = None,
        endlinenum = None, locals = None, seqpts = None\<rparr>"
    by simp
  define f where "f = (InformFunc_init 5)\<lparr>seqpts := Some [((1, 7, 2), 16)]\<rparr>"
  have g: "dict_get (functions lineref_state) 5 = Some f"
    by (simp add: lineref_state_def dict_get_def f_def)
  from t [where self = lineref_state and n = 5 and func = f, THEN conjunct2, THEN conjunct1] g
  show e: "get_function lineref_state 5
     = (\<lparr>funcnum = 5, name = ''<???>'', addr = 0, linenum = None, endaddr = None,
         endlinenum = None, locals = None, seqpts = Some [((1, 7, 2), 16)]\<rparr>, lineref_state)"
    by (simp add: f_def InformFunc_init_def)
  have "\<exists>recfunc self'. rectable 11 = Some recfunc
          \<and> recfunc lineref_state (?idb @ ?posb @ ?ab @ ''A'' @ [CHR 0x00] @ cstrings [''x'']
                                    @ [CHR 0x00] @ [])
              = Some (Inr (self', []))
          \<and> (\<forall>m. dict_get (functions self') m =
                (if m = uint ?idb
                 then Some ((fst (get_function lineref_state (uint ?idb)))
                              \<lparr>linenum := Some (position ?posb), addr := uint ?ab, name := ''A'',
                               locals := Some [''x'']\<rparr>)
                 else dict_get (functions lineref_state) m))"
    by (rule t [THEN conjunct2, THEN conjunct2, THEN conjunct1, THEN mp]) simp
  then obtain self1 where
    "read_routine_rec lineref_state (?idb @ ?posb @ ?ab @ ''A'' @ [CHR 0x00] @ cstrings [''x'']
                                      @ [CHR 0x00] @ [])
       = Some (Inr (self1, []))"
    "dict_get (functions self1) (uint ?idb)
       = Some ((fst (get_function lineref_state (uint ?idb)))
                 \<lparr>linenum := Some (position ?posb), addr := uint ?ab, name := ''A'',
                  locals := Some [''x'']\<rparr>)"
    by (auto simp: rectable_def)
  then show "\<exists>self'. read_routine_rec lineref_state (drop 1 routine_record_5) = Some (Inr (self', []))
        \<and> dict_get (functions self') 5
            = Some \<lparr>funcnum = 5, name = ''A'', addr = 16, linenum = Some (1, 7, 2), endaddr = None,
                endlinenum = None, locals = Some [''x''], seqpts = Some [((1, 7, 2), 16)]\<rparr>"
    by (intro exI [of _ self1])
       (simp add: u e routine_record_5_def cstrings_def uint_def position_def)
  have "\<exists>recfunc self'. rectable 10 = Some recfunc
          \<and> recfunc routine_state (?idb @ ?cntb @ concat ?ps @ []) = Some (Inr (self', []))
          \<and> (\<forall>m. dict_get (functions self') m =
                (if m = uint ?idb
                 then Some ((fst (get_function routine_state (uint ?idb)))
                              \<lparr>seqpts := Some (points (fst (get_function routine_state (uint ?idb)))
                                                 @ map seqpt ?ps)\<rparr>)
                 else dict_get (functions routine_state) m))"
    by (rule t [THEN conjunct2, THEN conjunct2, THEN conjunct2, THEN conjunct1, THEN mp])
       (simp add: uint_def)
  then obtain self2 where
    "read_lineref_rec routine_state (?idb @ ?cntb @ concat ?ps @ []) = Some (Inr (self2, []))"
    "dict_get (functions self2) (uint ?idb)
       = Some ((fst (get_function routine_state (uint ?idb)))
                 \<lparr>seqpts := Some (points (fst (get_function routine_state (uint ?idb)))
                                    @ map seqpt ?ps)\<rparr>)"
    by (auto simp: rectable_def)
  then show "\<exists>self'. read_lineref_rec routine_state (drop 1 lineref_record_5) = Some (Inr (self', []))
        \<and> dict_get (functions self') 5
            = Some \<lparr>funcnum = 5, name = ''A'', addr = 16, linenum = Some (1, 7, 2), endaddr = None,
                endlinenum = None, locals = Some [''x''], seqpts = Some [((1, 7, 2), 16)]\<rparr>"
    by (intro exI [of _ self2])
       (simp add: u lineref_record_5_def routine_state_def uint_def position_def seqpt_def
          points_def eval_function_recs InformFunc_init_def)
  have "\<exists>recfunc self'. rectable 14 = Some recfunc
          \<and> recfunc (DebugFile_new 1 2) (?idb @ ?endposb @ ?endab @ []) = Some (Inr (self', []))
          \<and> (\<forall>m. dict_get (functions self') m =
                (if m = uint ?idb
                 then Some ((fst (get_function (DebugFile_new 1 2) (uint ?idb)))
                              \<lparr>endlinenum := Some (position ?endposb),
                               endaddr := Some (uint ?endab)\<rparr>)
                 else dict_get (functions (DebugFile_new 1 2)) m))"
    by (rule t [THEN conjunct2, THEN conjunct2, THEN conjunct2, THEN conjunct2, THEN conjunct1,
          THEN mp]) simp
  then obtain self3 where
    "read_routine_end_rec (DebugFile_new 1 2) (?idb @ ?endposb @ ?endab @ [])
       = Some (Inr (self3, []))"
    "dict_get (functions self3) (uint ?idb)
       = Some ((fst (get_function (DebugFile_new 1 2) (uint ?idb)))
                 \<lparr>endlinenum := Some (position ?endposb), endaddr := Some (uint ?endab)\<rparr>)"
    by (auto simp: rectable_def)
  then show "\<exists>self'. read_routine_end_rec (DebugFile_new 1 2) routine_end_body_5
                   = Some (Inr (self', []))
        \<and> dict_get (functions self') 5
            = Some \<lparr>funcnum = 5, name = ''<???>'', addr = 0, linenum = None, endaddr = Some 32,
                endlinenum = Some (1, 9, 2), locals = None, seqpts = None\<rparr>"
    by (intro exI [of _ self3])
       (simp add: u d routine_end_body_5_def uint_def position_def)
  have rr: "read_routine_rec (DebugFile_new 1 2) (drop 1 routine_record_5)
              = Some (Inr (routine_state, []))"
    using read_routine_rec_5 [of "[]"] by simp
  have "rectable 11 = Some read_routine_rec \<and> read_routine_rec (DebugFile_new 1 2)
            (drop 1 routine_record_5) = Some (Inr (routine_state, []))
        \<and> unpack 2 (take 2 (drop 1 routine_record_5)) = Inr 5 \<and> (11::int) \<in> {10, 11, 14}"
    using rr by (simp add: rectable_def routine_record_5_def unpack_def)
  from t [where rectype = 11 and recfunc = read_routine_rec and self = "DebugFile_new 1 2"
        and body = "drop 1 routine_record_5" and self' = routine_state and fl' = "[]" and n = 5,
        THEN conjunct2, THEN conjunct2, THEN conjunct2, THEN conjunct2, THEN conjunct2,
        THEN conjunct1, THEN mp, OF this]
  obtain func pos a nm ls where
    "dict_get (functions routine_state) 5 = Some func"
    "func = (fst (get_function (DebugFile_new 1 2) 5))
              \<lparr>linenum := Some pos, addr := a, name := nm, locals := Some ls\<rparr>"
    by auto
  with d rr show "\<exists>func. read_routine_rec (DebugFile_new 1 2) (drop 1 routine_record_5)
                 = Some (Inr (routine_state, []))
        \<and> dict_get (functions routine_state) 5 = Some func
        \<and> name func = ''A'' \<and> addr func = 16 \<and> linenum func = Some (1, 7, 2)
        \<and> endaddr func = None \<and> endlinenum func = None \<and> seqpts func = None"
    by (intro exI [of _ func]) (simp add: routine_state_def dict_get_def InformFunc_init_def)
  have s: "steps (DebugFile_new 1 2) lineref_record_5 [(10, drop 1 lineref_record_5)]
             lineref_state []"
    using steps_lineref_record_5 [of "[]"] by simp
  have r: "\<forall>rec \<in> set [(10, drop 1 lineref_record_5)]. \<not> refers 11 5 rec"
    "\<forall>rec \<in> set [(10, drop 1 lineref_record_5)]. \<not> refers 14 5 rec"
    by (simp_all add: refers_def)
  from t [where dv = 1 and iv = 2 and fl = lineref_record_5
        and recs = "[(10, drop 1 lineref_record_5)]" and db = lineref_state and fl'' = "[]"
        and n = 5 and f = f,
        THEN conjunct2, THEN conjunct2, THEN conjunct2, THEN conjunct2, THEN conjunct2,
        THEN conjunct2, THEN mp, OF s] g r
  have "funcnum f = 5 \<and> name f = ''<???>'' \<and> addr f = 0 \<and> linenum f = None \<and> locals f = None
      \<and> endaddr f = None \<and> endlinenum f = None"
    by blast
  with s g show "\<exists>f. steps (DebugFile_new 1 2) lineref_record_5 [(10, drop 1 lineref_record_5)]
            lineref_state []
      \<and> dict_get (functions lineref_state) 5 = Some f
      \<and> funcnum f = 5 \<and> name f = ''<???>'' \<and> addr f = 0 \<and> linenum f = None \<and> locals f = None
      \<and> endaddr f = None \<and> endlinenum f = None"
    by (intro exI [of _ f]) simp
qed

text \<open>
  Claim C10, instances: a file with a single Line-reference record for the id 5 decodes,
  and building the map fails; a file with a Routine record for the id 5 decodes and gives
  the map from the address 0x10 to line 7 and name \<^verbatim>\<open>A\<close>.
\<close>

theorem sourcemap_needs_routine_records_witness:
  "(\<exists>db. DebugFile_init (magic_and_versions @ lineref_record_5 @ [CHR 0x00]) = Some (Inr db)
        \<and> functions db = functions lineref_state
        \<and> sourcemap_of_debugfile db = Inl TypeError)
   \<and> (\<exists>db. DebugFile_init (magic_and_versions @ routine_record_5 @ [CHR 0x00]) = Some (Inr db)
        \<and> sourcemap_of_debugfile db = Inr [(0x10, (7, ''A''))]
        \<and> (\<exists>dv iv body recs self rest.
              debug_header (magic_and_versions @ routine_record_5 @ [CHR 0x00]) = Some (dv, iv, body)
            \<and> steps (DebugFile_new dv iv) body recs self (CHR 0x00 # rest)
            \<and> (\<exists>rec \<in> set recs. refers 11 5 rec)))"
proof (rule conjI)
  let ?fl = "magic_and_versions @ lineref_record_5 @ [CHR 0x00]"
  have h: "debug_header ?fl = Some (1, 2, lineref_record_5 @ [CHR 0x00])"
    by (rule debug_header_example)
  have s: "steps (DebugFile_new 1 2) (lineref_record_5 @ [CHR 0x00])
             [(10, drop 1 (lineref_record_5 @ [CHR 0x00]))] lineref_state (CHR 0x00 # [])"
    by (rule steps_lineref_record_5)
  define f where "f = (InformFunc_init 5)\<lparr>seqpts := Some [((1, 7, 2), 16)]\<rparr>"
  have g: "dict_get (functions lineref_state) 5 = Some f"
    by (simp add: lineref_state_def dict_get_def f_def)
  have r: "\<forall>rec \<in> set [(10, drop 1 (lineref_record_5 @ [CHR 0x00]))]. \<not> refers 11 5 rec"
    by (simp add: refers_def)
  from sourcemap_needs_routine_records
         [where fl = ?fl and dv = 1 and iv = 2 and body = "lineref_record_5 @ [CHR 0x00]"
            and recs = "[(10, drop 1 (lineref_record_5 @ [CHR 0x00]))]"
            and self = lineref_state and rest = "[]" and n = 5 and func = f]
       h s g r
  show "\<exists>db. DebugFile_init ?fl = Some (Inr db)
        \<and> functions db = functions lineref_state
        \<and> sourcemap_of_debugfile db = Inl TypeError"
    by blast
next
  let ?fl = "magic_and_versions @ routine_record_5 @ [CHR 0x00]"
  have h: "debug_header ?fl = Some (1, 2, routine_record_5 @ [CHR 0x00])"
    by (rule debug_header_example)
  have s: "steps (DebugFile_new 1 2) (routine_record_5 @ [CHR 0x00])
             [(11, drop 1 (routine_record_5 @ [CHR 0x00]))] routine_state (CHR 0x00 # [])"
    by (rule steps_routine_record_5)
  from DebugFile_init_steps [OF h s] obtain db where
    i: "DebugFile_init ?fl = Some (Inr db)" and f: "functions db = functions routine_state"
    by blast
  have m: "sourcemap_of_debugfile db = Inr [(0x10, (7, ''A''))]"
    by (simp add: sourcemap_of_debugfile_def f routine_state_def dict_values_def dict_items_def
        InformFunc_init_def dict_set_def)
  have g: "dict_get (functions db) 5
             = Some ((InformFunc_init 5)\<lparr>linenum := Some (1, 7, 2), addr := 16, name := ''A'',
                                         locals := Some [''x'']\<rparr>)"
    by (simp add: f routine_state_def dict_get_def)
  from sourcemap_needs_routine_records
         [where fl = ?fl and db = db and sm = "[(0x10, (7, ''A''))]", THEN conjunct2] i m
  obtain dv iv body recs self rest where
    "debug_header ?fl = Some (dv, iv, body)"
    "steps (DebugFile_new dv iv) body recs self (CHR 0x00 # rest)"
    "\<forall>n func. dict_get (functions db) n = Some func \<longrightarrow> (\<exists>rec \<in> set recs. refers 11 n rec)"
    by blast
  with g have "\<exists>dv iv body recs self rest.
              debug_header ?fl = Some (dv, iv, body)
            \<and> steps (DebugFile_new dv iv) body recs self (CHR 0x00 # rest)
            \<and> (\<exists>rec \<in> set recs. refers 11 5 rec)"
    by blast
  with i m show "\<exists>db. DebugFile_init ?fl = Some (Inr db)
        \<and> sourcemap_of_debugfile db = Inr [(0x10, (7, ''A''))]
        \<and> (\<exists>dv iv body recs self rest.
              debug_header ?fl = Some (dv, iv, body)
            \<and> steps (DebugFile_new dv iv) body recs self (CHR 0x00 # rest)
            \<and> (\<exists>rec \<in> set recs. refers 11 5 rec))"
    by blast
qed

end
